theory Spec2Isabelle
  imports Main
begin

section \<open>JSON values and the JavaScript operations the converter uses\<close>

text \<open>
  The converter reads an OpenAPI document that was parsed from JSON and builds JSON schema
  objects. Both are modelled by one datatype. An object is the list of its own properties;
  its keys are distinct. A number is an integer of magnitude at most \<open>2 ^ 53\<close>; other
  numbers cannot be written.
\<close>

datatype json = JNull | JBool bool | JNum int | JStr string
  | JArr "json list" | JObj "(string \<times> json) list"

text \<open>
  \<open>TypeError\<close> is the exception JavaScript raises. \<open>OutOfFuel\<close> is returned by the
  recursive functions when their recursion bound is used up. \<open>Unmodelled\<close> is returned
  where the result in JavaScript depends on what this model leaves out: members inherited
  from a prototype, conversion of a value that is not a string to a string, the position
  of a new integer-like key among the keys of an object, and assignment to an object that
  is shared with the reference cache.
\<close>

datatype error = TypeError | Unmodelled | OutOfFuel

fun truthy :: "json \<Rightarrow> bool" where
  "truthy JNull = False"
| "truthy (JBool b) = b"
| "truthy (JNum n) = (n \<noteq> 0)"
| "truthy (JStr s) = (s \<noteq> [])"
| "truthy (JArr xs) = True"
| "truthy (JObj kvs) = True"

subsection \<open>Decimal numerals\<close>

definition digit_char :: "nat \<Rightarrow> char" where
  "digit_char d = ''0123456789'' ! d"

text \<open>\<open>Number.prototype.toString()\<close> on a non-negative integer.\<close>

fun string_of_nat :: "nat \<Rightarrow> string" where
  "string_of_nat n =
     (if n < 10 then [digit_char n]
      else string_of_nat (n div 10) @ [digit_char (n mod 10)])"

declare string_of_nat.simps [simp del]

definition digit_value :: "char \<Rightarrow> nat option" where
  "digit_value ch =
     map_of [(CHR ''0'', 0), (CHR ''1'', 1), (CHR ''2'', 2), (CHR ''3'', 3), (CHR ''4'', 4),
             (CHR ''5'', 5), (CHR ''6'', 6), (CHR ''7'', 7), (CHR ''8'', 8), (CHR ''9'', 9)] ch"

fun digits_value :: "nat \<Rightarrow> string \<Rightarrow> nat option" where
  "digits_value acc [] = Some acc"
| "digits_value acc (ch # cs) =
     (case digit_value ch of
        None \<Rightarrow> None
      | Some d \<Rightarrow> digits_value (10 * acc + d) cs)"

text \<open>
  A key is an array index when it is the decimal numeral, without leading zeros, of a
  number below \<open>2 ^ 32 - 1\<close>.
\<close>

definition index_value :: "string \<Rightarrow> nat option" where
  "index_value k =
     (if k = [] \<or> (hd k = CHR ''0'' \<and> tl k \<noteq> []) then None
      else (case digits_value 0 k of
              None \<Rightarrow> None
            | Some n \<Rightarrow> if n < 4294967295 then Some n else None))"

subsection \<open>Own properties\<close>

text \<open>
  \<open>Object.entries\<close>: the own enumerable properties, those with an array index as key
  first, in ascending order, then the others in the order they were created. An array has
  its elements under their indices, a string its characters.
\<close>

definition is_index_entry :: "string \<times> json \<Rightarrow> bool" where
  "is_index_entry kv = (index_value (fst kv) \<noteq> None)"

definition entry_index :: "string \<times> json \<Rightarrow> nat" where
  "entry_index kv = (case index_value (fst kv) of None \<Rightarrow> 0 | Some n \<Rightarrow> n)"

definition own_entries :: "(string \<times> json) list \<Rightarrow> (string \<times> json) list" where
  "own_entries kvs =
     sort_key entry_index (filter is_index_entry kvs)
     @ filter (\<lambda>kv. \<not> is_index_entry kv) kvs"

definition index_keys :: "nat \<Rightarrow> string list" where
  "index_keys n = map string_of_nat [0..<n]"

fun js_entries :: "json \<Rightarrow> (string \<times> json) list" where
  "js_entries (JObj kvs) = own_entries kvs"
| "js_entries (JArr xs) = zip (index_keys (length xs)) xs"
| "js_entries (JStr s) = zip (index_keys (length s)) (map (\<lambda>ch. JStr [ch]) s)"
| "js_entries _ = []"

text \<open>
  \<open>js_get v k\<close> is the own property \<open>k\<close> of \<open>v\<close>, \<open>None\<close> for \<open>undefined\<close>. The
  converter reads properties under fixed names (\<open>type\<close>, \<open>properties\<close>, \<open>$ref\<close>,
  \<open>schema\<close> and so on); none of them is inherited from the prototype of an object, an
  array, a string, a number or a boolean, so for those names the own property is what
  \<open>v[k]\<close> and \<open>v.k\<close> return.
\<close>

fun js_get :: "json \<Rightarrow> string \<Rightarrow> json option" where
  "js_get (JObj kvs) k = map_of kvs k"
| "js_get (JArr xs) k =
     (if k = ''length'' then Some (JNum (int (length xs)))
      else (case index_value k of
              None \<Rightarrow> None
            | Some i \<Rightarrow> if i < length xs then Some (xs ! i) else None))"
| "js_get (JStr s) k =
     (if k = ''length'' then Some (JNum (int (length s)))
      else (case index_value k of
              None \<Rightarrow> None
            | Some i \<Rightarrow> if i < length s then Some (JStr [s ! i]) else None))"
| "js_get _ k = None"

text \<open>The members every plain object inherits from \<open>Object.prototype\<close>.\<close>

definition object_prototype_names :: "string list" where
  "object_prototype_names =
     [''constructor'', ''hasOwnProperty'', ''isPrototypeOf'', ''propertyIsEnumerable'',
      ''toLocaleString'', ''toString'', ''valueOf'', ''__proto__'', ''__defineGetter__'',
      ''__defineSetter__'', ''__lookupGetter__'', ''__lookupSetter__'']"

text \<open>
  \<open>js_index v k\<close> is \<open>v[k]\<close> for a key that comes from the data. When \<open>v\<close> has no own
  property \<open>k\<close> the result is \<open>undefined\<close> if nothing can be inherited under that key: a
  key of an object that is not a member of \<open>Object.prototype\<close>, an array index on an array
  or a string. Reading a property of \<open>null\<close> raises \<open>TypeError\<close>. Otherwise the key may
  name an inherited member.
\<close>

fun js_index :: "json \<Rightarrow> string \<Rightarrow> error + json option" where
  "js_index (JObj kvs) k =
     (case map_of kvs k of
        Some v \<Rightarrow> Inr (Some v)
      | None \<Rightarrow> if k \<in> set object_prototype_names then Inl Unmodelled else Inr None)"
| "js_index (JArr xs) k =
     (case js_get (JArr xs) k of
        Some v \<Rightarrow> Inr (Some v)
      | None \<Rightarrow> if index_value k \<noteq> None then Inr None else Inl Unmodelled)"
| "js_index (JStr s) k =
     (case js_get (JStr s) k of
        Some v \<Rightarrow> Inr (Some v)
      | None \<Rightarrow> if index_value k \<noteq> None then Inr None else Inl Unmodelled)"
| "js_index JNull k = Inl TypeError"
| "js_index _ k = Inl Unmodelled"

text \<open>\<open>v.k\<close> when it is truthy.\<close>

definition truthy_field :: "json \<Rightarrow> string \<Rightarrow> json option" where
  "truthy_field obj k =
     (case js_get obj k of None \<Rightarrow> None | Some v \<Rightarrow> if truthy v then Some v else None)"

text \<open>\<open>k in v\<close>, for the fixed names the converter tests.\<close>

fun js_in :: "string \<Rightarrow> json \<Rightarrow> error + bool" where
  "js_in k (JObj kvs) = Inr (map_of kvs k \<noteq> None)"
| "js_in k (JArr xs) = Inr (js_get (JArr xs) k \<noteq> None)"
| "js_in k _ = Inl TypeError"

text \<open>
  \<open>for (const x of v)\<close> and \<open>...v\<close> in an argument list: the elements of an array, the
  characters of a string; any other value is not iterable.
\<close>

fun js_iter :: "json \<Rightarrow> error + json list" where
  "js_iter (JArr xs) = Inr xs"
| "js_iter (JStr s) = Inr (map (\<lambda>ch. JStr [ch]) s)"
| "js_iter _ = Inl TypeError"

text \<open>
  A value in a position the typings declare as \<open>string\<close>, where the code concatenates it
  or uses it as a key.
\<close>

fun as_text :: "json \<Rightarrow> error + string" where
  "as_text (JStr s) = Inr s"
| "as_text _ = Inl Unmodelled"

fun as_array :: "json \<Rightarrow> json list option" where
  "as_array (JArr xs) = Some xs"
| "as_array _ = None"

text \<open>\<open>typeof v === 'object'\<close> for a truthy value.\<close>

fun is_object :: "json \<Rightarrow> bool" where
  "is_object (JObj kvs) = True"
| "is_object (JArr xs) = True"
| "is_object _ = False"

definition starts_with :: "string \<Rightarrow> string \<Rightarrow> bool" where
  "starts_with p s = (take (length p) s = p)"

text \<open>\<open>s.split('/')\<close>.\<close>

fun split_slash :: "string \<Rightarrow> string list" where
  "split_slash [] = [[]]"
| "split_slash (ch # cs) =
     (if ch = CHR ''/'' then [] # split_slash cs
      else (case split_slash cs of [] \<Rightarrow> [[ch]] | p # ps \<Rightarrow> (ch # p) # ps))"

subsection \<open>Writing properties\<close>

text \<open>
  \<open>obj[k] = v\<close>: an existing property keeps its place, a new one is added after the
  others. That is the place JavaScript gives it unless the key is an array index, and the
  assignment creates a property unless the key is \<open>__proto__\<close>.
\<close>

fun obj_set :: "(string \<times> 'v) list \<Rightarrow> string \<Rightarrow> 'v \<Rightarrow> (string \<times> 'v) list" where
  "obj_set [] k v = [(k, v)]"
| "obj_set ((k', v') # kvs) k v = (if k' = k then (k, v) # kvs else (k', v') # obj_set kvs k v)"

definition assignable :: "string \<Rightarrow> bool" where
  "assignable k = (k \<noteq> ''__proto__'' \<and> index_value k = None)"

text \<open>
  Filling a new object from the entries of another, in their order: the keys come in the
  order of \<open>Object.entries\<close>, so each lands where JavaScript puts it.
\<close>

definition obj_of_entries :: "(string \<times> json) list \<Rightarrow> (string \<times> json) list" where
  "obj_of_entries kvs = foldl (\<lambda>acc kv. obj_set acc (fst kv) (snd kv)) [] kvs"

fun set_prop :: "json \<Rightarrow> string \<Rightarrow> json \<Rightarrow> json" where
  "set_prop (JObj kvs) k v = JObj (obj_set kvs k v)"
| "set_prop j k v = j"

definition opt_entry :: "string \<Rightarrow> json option \<Rightarrow> (string \<times> json) list" where
  "opt_entry k v = (case v of None \<Rightarrow> [] | Some x \<Rightarrow> [(k, x)])"

definition or_empty :: "json option \<Rightarrow> json" where
  "or_empty v = (case v of None \<Rightarrow> JObj [] | Some x \<Rightarrow> x)"

definition or_empty_string :: "json option \<Rightarrow> json" where
  "or_empty_string v = (case v of None \<Rightarrow> JStr [] | Some x \<Rightarrow> x)"

section \<open>Tool names\<close>

text \<open>\<open>s.padStart(w, '0')\<close>.\<close>

definition padStart0 :: "nat \<Rightarrow> string \<Rightarrow> string" where
  "padStart0 w s = replicate (w - length s) (CHR ''0'') @ s"

text \<open>
  \<open>generateUniqueSuffix\<close> increments the counter of the instance and prints it padded to
  four digits. The functions take the counter and return the new one with their result.
\<close>

definition generateUniqueSuffix :: "nat \<Rightarrow> string \<times> nat" where
  "generateUniqueSuffix counter = (padStart0 4 (string_of_nat (counter + 1)), counter + 1)"

text \<open>
  \<open>ensureUniqueName\<close>: a name of at most 64 characters is returned as it is; a longer
  one is cut to its first \<open>64 - 5\<close> characters and gets \<open>-\<close> and the suffix.
\<close>

definition ensureUniqueName :: "string \<Rightarrow> nat \<Rightarrow> string \<times> nat" where
  "ensureUniqueName nm counter =
     (if length nm \<le> 64 then (nm, counter)
      else (let truncatedName = take (64 - 5) nm;
                (uniqueSuffix, counter1) = generateUniqueSuffix counter
            in (truncatedName @ ''-'' @ uniqueSuffix, counter1)))"

section \<open>The converter instance and reference resolution\<close>

text \<open>
  The mutable fields of \<open>OpenAPIToMCPConverter\<close>, and the diagnostics written with
  \<open>console.error\<close> and \<open>console.warn\<close>. The document \<open>openApiSpec\<close> and the filter
  configuration are set by the constructor and never assigned again: they are parameters
  of the functions below.
\<close>

record converter =
  schemaCache :: "string \<rightharpoonup> json"
  nameCounter :: nat
  allComponentSchemas :: "(string \<times> json) list option"
  console :: "string list"

definition new_converter :: converter where
  "new_converter = \<lparr>schemaCache = Map.empty, nameCounter = 0,
      allComponentSchemas = None, console = []\<rparr>"

definition console_log :: "string \<Rightarrow> converter \<Rightarrow> converter" where
  "console_log msg c = c\<lparr>console := console c @ [msg]\<rparr>"

text \<open>
  \<open>d[k]\<close>, when truthy, for a dictionary \<open>d\<close> that was created as \<open>{}\<close> and a key from
  the data: \<open>schemaCache\<close> and the table of converted components.
\<close>

definition dict_get :: "json option \<Rightarrow> string \<Rightarrow> error + json option" where
  "dict_get own k =
     (case own of
        Some v \<Rightarrow> Inr (if truthy v then Some v else None)
      | None \<Rightarrow> if k \<in> set object_prototype_names then Inl Unmodelled else Inr None)"

text \<open>The loop of \<open>internalResolveRef\<close> over the parts of the pointer.\<close>

fun walk :: "json \<Rightarrow> string list \<Rightarrow> error + json option" where
  "walk current [] = Inr (Some current)"
| "walk current (part # parts) =
     (case js_index current part of
        Inl e \<Rightarrow> Inl e
      | Inr None \<Rightarrow> Inr None
      | Inr (Some v) \<Rightarrow> if truthy v then walk v parts else Inr None)"

text \<open>
  \<open>internalResolveRef\<close>: \<open>None\<close> is the result \<open>null\<close>; on success the pointer is added
  to \<open>resolvedRefs\<close>.
\<close>

definition internalResolveRef ::
    "json \<Rightarrow> string \<Rightarrow> string set \<Rightarrow> error + (json \<times> string set) option" where
  "internalResolveRef spec ref resolvedRefs =
     (if \<not> starts_with ''#/'' ref then Inr None
      else if ref \<in> resolvedRefs then Inr None
      else (case walk spec (split_slash (drop 2 ref)) of
              Inl e \<Rightarrow> Inl e
            | Inr None \<Rightarrow> Inr None
            | Inr (Some current) \<Rightarrow> Inr (Some (current, insert ref resolvedRefs))))"

section \<open>Schema conversion\<close>

definition componentsPrefix :: string where
  "componentsPrefix = ''#/components/schemas/''"

definition defsPrefix :: string where
  "defsPrefix = ''#/$defs/''"

text \<open>\<open>ref.replace(/^#\/components\/schemas\//, '#/$defs/')\<close>.\<close>

definition to_defs_ref :: "string \<Rightarrow> string" where
  "to_defs_ref ref =
     (if starts_with componentsPrefix ref then defsPrefix @ drop (length componentsPrefix) ref
      else ref)"

definition binaryDesc :: string where
  "binaryDesc = ''absolute paths to local files''"

text \<open>
  The fields of an inline schema that need no recursion, in the order the code assigns
  them: \<open>type\<close>, then \<open>format\<close> and \<open>description\<close> (a binary format becomes
  \<open>uri-reference\<close> and extends the description), \<open>enum\<close>, \<open>default\<close>.
\<close>

definition base_fields :: "json \<Rightarrow> error + (string \<times> json) list" where
  "base_fields schema =
     (case (if js_get schema ''format'' = Some (JStr ''binary'')
            then (case truthy_field schema ''description'' of
                    None \<Rightarrow>
                      Inr [(''format'', JStr ''uri-reference''), (''description'', JStr binaryDesc)]
                  | Some d \<Rightarrow>
                      (case as_text d of
                         Inl e \<Rightarrow> Inl e
                       | Inr s \<Rightarrow>
                           Inr [(''format'', JStr ''uri-reference''),
                                (''description'', JStr (s @ '' ('' @ binaryDesc @ '')''))]))
            else Inr (opt_entry ''description'' (truthy_field schema ''description''))) of
        Inl e \<Rightarrow> Inl e
      | Inr described \<Rightarrow>
          Inr (opt_entry ''type'' (truthy_field schema ''type'') @ described
               @ opt_entry ''enum'' (truthy_field schema ''enum'')
               @ opt_entry ''default'' (js_get schema ''default'')))"

text \<open>\<open>r.length > 0\<close> for a truthy \<open>r\<close>.\<close>

fun length_gt0 :: "json \<Rightarrow> error + bool" where
  "length_gt0 (JArr xs) = Inr (xs \<noteq> [])"
| "length_gt0 (JStr s) = Inr (s \<noteq> [])"
| "length_gt0 (JObj kvs) =
     (case map_of kvs ''length'' of
        None \<Rightarrow> Inr False
      | Some l \<Rightarrow>
          (case l of
             JNum n \<Rightarrow> Inr (0 < n)
           | JBool b \<Rightarrow> Inr b
           | JNull \<Rightarrow> Inr False
           | _ \<Rightarrow> Inl Unmodelled))"
| "length_gt0 _ = Inr False"

definition required_field :: "json \<Rightarrow> error + (string \<times> json) list" where
  "required_field schema =
     (case truthy_field schema ''required'' of
        None \<Rightarrow> Inr []
      | Some r \<Rightarrow>
          (case length_gt0 r of
             Inl e \<Rightarrow> Inl e
           | Inr b \<Rightarrow> Inr (if b then [(''required'', r)] else [])))"

definition isObject :: "json \<Rightarrow> bool" where
  "isObject schema = (js_get schema ''type'' = Some (JStr ''object''))"

definition isArray :: "json \<Rightarrow> bool" where
  "isArray schema = (js_get schema ''type'' = Some (JStr ''array''))"

text \<open>The node returned for a reference that does not resolve.\<close>

definition failed_ref_node :: "json \<Rightarrow> string \<Rightarrow> json" where
  "failed_ref_node schema ref =
     JObj [(''$ref'', JStr (to_defs_ref ref)),
           (''description'',
            (case js_get schema ''description'' of
               None \<Rightarrow> JStr []
             | Some d \<Rightarrow> if d = JNull then JStr [] else d))]"

subsection \<open>A measure for the recursion on the schema\<close>

fun jsize :: "json \<Rightarrow> nat" where
  "jsize (JArr xs) = Suc (sum_list (map (\<lambda>x. Suc (jsize x)) xs))"
| "jsize (JObj kvs) = Suc (Suc (sum_list (map (\<lambda>kv. Suc (jsize (snd kv))) kvs)))"
| "jsize (JStr s) = length s - 1"
| "jsize _ = 0"

definition jsizes :: "json list \<Rightarrow> nat" where
  "jsizes xs = sum_list (map (\<lambda>x. Suc (jsize x)) xs)"

lemma jsize_map_of: "map_of kvs k = Some v \<Longrightarrow> Suc (jsize v) \<le> jsizes (map snd kvs)"
  by (induction kvs) (auto simp: jsizes_def split: if_splits)

lemma jsizes_Cons: "jsizes (x # xs) = Suc (jsize x) + jsizes xs"
  by (simp add: jsizes_def)

lemma jsizes_append: "jsizes (xs @ ys) = jsizes xs + jsizes ys"
  by (simp add: jsizes_def)

lemma jsize_JObj: "jsize (JObj kvs) = Suc (Suc (jsizes (map snd kvs)))"
  by (simp add: jsizes_def comp_def)

lemma jsize_JArr: "jsize (JArr xs) = Suc (jsizes xs)"
  by (simp add: jsizes_def)

lemma jsizes_zip_le: "jsizes (map snd (zip ks xs)) \<le> jsizes xs"
proof (induction xs arbitrary: ks)
  case Nil then show ?case by (simp add: jsizes_def)
next
  case (Cons x xs)
  show ?case
  proof (cases ks)
    case Nil then show ?thesis by (simp add: jsizes_def)
  next
    case (Cons k ks')
    then show ?thesis using Cons.IH [of ks'] by (simp add: jsizes_def)
  qed
qed

lemma jsizes_chars: "jsizes (map (\<lambda>c. JStr [c]) s) = length s"
  by (induction s) (auto simp: jsizes_def)

lemma jsizes_filter: "jsizes (map snd (filter P kvs)) + jsizes (map snd (filter (\<lambda>kv. \<not> P kv) kvs))
    = jsizes (map snd kvs)"
  by (induction kvs) (auto simp: jsizes_Cons, simp add: jsizes_def)

lemma jsizes_insort: "jsizes (map snd (insort_key f kv kvs)) = Suc (jsize (snd kv)) + jsizes (map snd kvs)"
  by (induction kvs) (auto simp: jsizes_Cons)

lemma jsizes_sort: "jsizes (map snd (sort_key f kvs)) = jsizes (map snd kvs)"
  by (induction kvs) (simp_all add: jsizes_Cons jsizes_insort)

lemma jsizes_own_entries: "jsizes (map snd (own_entries kvs)) = jsizes (map snd kvs)"
  by (simp add: own_entries_def jsizes_append jsizes_sort jsizes_filter)

lemma jsize_entries: "jsizes (map snd (js_entries p)) \<le> Suc (jsize p)"
proof (cases p)
  case (JArr xs)
  then show ?thesis using jsizes_zip_le [of "index_keys (length xs)" xs]
    by (simp add: jsize_JArr del: jsize.simps)
next
  case (JStr s)
  then show ?thesis
    using jsizes_zip_le [of "index_keys (length s)" "map (\<lambda>c. JStr [c]) s"]
    by (simp add: jsizes_chars)
next
  case (JObj kvs)
  then show ?thesis by (simp add: jsizes_own_entries jsize_JObj del: jsize.simps)
qed (auto simp: jsizes_def)

lemma field_le:
  "truthy_field (JObj kvs) k = Some v \<Longrightarrow> Suc (jsize v) \<le> jsizes (map snd kvs)"
  using jsize_map_of [of kvs k v]
  by (auto simp: truthy_field_def split: option.splits if_splits)

lemma field_less:
  "truthy_field (JObj kvs) k = Some v \<Longrightarrow> jsize v < Suc (Suc (jsizes (map snd kvs)))"
  using field_le [of kvs k v] by simp

lemma field_entries_less:
  "truthy_field (JObj kvs) k = Some v \<Longrightarrow>
   jsizes (map snd (js_entries v)) < Suc (Suc (jsizes (map snd kvs)))"
  using field_le [of kvs k v] jsize_entries [of v] by simp

lemma field_array_less:
  "truthy_field (JObj kvs) k = Some v \<Longrightarrow> as_array v = Some xs \<Longrightarrow>
   jsizes xs < Suc (Suc (jsizes (map snd kvs)))"
  using field_le [of kvs k v] by (cases v) (auto simp: jsize_JArr simp del: jsize.simps)

lemma jsize_mem_jsizes: "x \<in> set xs \<Longrightarrow> jsize x < jsizes xs"
  by (induction xs) (auto simp: jsizes_def)

subsection \<open>\<open>convertOpenApiSchemaToJsonSchema\<close>\<close>

text \<open>
  The arguments are the recursion bound, the document, \<open>resolveRefs\<close>, the schema,
  \<open>resolvedRefs\<close> and the instance; the result is the converted schema with the updated
  \<open>resolvedRefs\<close> and instance. The bound is decremented where the conversion continues in
  the target of a reference; everywhere else the recursion descends into the schema.
  \<open>convert_each\<close> converts the schemas of a list from left to right.

  A reference is an object with an own property \<open>$ref\<close>. With \<open>resolveRefs\<close> unset, a
  pointer into \<open>#/components/schemas/\<close> is rewritten and not followed; there
  \<open>ref.startsWith\<close> raises \<open>TypeError\<close> when \<open>$ref\<close> is not a string. An array has none
  of the properties the inline branch reads, so it is converted to the empty object. For any
  other value \<open>'$ref' in schema\<close> raises \<open>TypeError\<close>.
\<close>

function convertOpenApiSchemaToJsonSchema ::
    "nat \<Rightarrow> json \<Rightarrow> bool \<Rightarrow> json \<Rightarrow> string set \<Rightarrow> converter
     \<Rightarrow> error + (json \<times> string set \<times> converter)"
  and convert_each ::
    "nat \<Rightarrow> json \<Rightarrow> bool \<Rightarrow> json list \<Rightarrow> string set \<Rightarrow> converter
     \<Rightarrow> error + (json list \<times> string set \<times> converter)"
where
  "convertOpenApiSchemaToJsonSchema fuel spec resolveRefs (JObj kvs) resolvedRefs c =
     (case map_of kvs ''$ref'' of
        Some refv \<Rightarrow>
          (case refv of
             JStr ref \<Rightarrow>
               if \<not> resolveRefs \<and> starts_with componentsPrefix ref then
                 Inr (JObj ((''$ref'', JStr (to_defs_ref ref))
                            # opt_entry ''description'' (map_of kvs ''description'')),
                      resolvedRefs, c)
               else
                 (let c1 = (if resolveRefs then c
                            else console_log (''Attempting to resolve ref '' @ ref
                                   @ '' not found in components collection.'') c) in
                  case dict_get (schemaCache c1 ref) ref of
                    Inl e \<Rightarrow> Inl e
                  | Inr (Some cached) \<Rightarrow> Inr (cached, resolvedRefs, c1)
                  | Inr None \<Rightarrow>
                      (case internalResolveRef spec ref resolvedRefs of
                         Inl e \<Rightarrow> Inl e
                       | Inr None \<Rightarrow>
                           Inr (failed_ref_node (JObj kvs) ref, resolvedRefs,
                                console_log (''Failed to resolve ref '' @ ref) c1)
                       | Inr (Some (resolved, resolvedRefs1)) \<Rightarrow>
                           (case fuel of
                              0 \<Rightarrow> Inl OutOfFuel
                            | Suc fuel' \<Rightarrow>
                                (case convertOpenApiSchemaToJsonSchema fuel' spec resolveRefs resolved
                                        resolvedRefs1 c1 of
                                   Inl e \<Rightarrow> Inl e
                                 | Inr (converted, resolvedRefs2, c2) \<Rightarrow>
                                     Inr (converted, resolvedRefs2,
                                          c2\<lparr>schemaCache := (schemaCache c2)(ref \<mapsto> converted)\<rparr>)))))
           | _ \<Rightarrow> if resolveRefs then Inl Unmodelled else Inl TypeError)
      | None \<Rightarrow>
          (case base_fields (JObj kvs) of
             Inl e \<Rightarrow> Inl e
           | Inr baseF \<Rightarrow>
          (case (case (if isObject (JObj kvs) then truthy_field (JObj kvs) ''properties'' else None) of
                   None \<Rightarrow> Inr ([], resolvedRefs, c)
                 | Some props \<Rightarrow>
                     (case convert_each fuel spec resolveRefs (map snd (js_entries props)) resolvedRefs c of
                        Inl e \<Rightarrow> Inl e
                      | Inr (vs, rs, c') \<Rightarrow>
                          if ''__proto__'' \<in> set (map fst (js_entries props)) then Inl Unmodelled
                          else Inr ([(''properties'',
                                      JObj (obj_of_entries (zip (map fst (js_entries props)) vs)))],
                                    rs, c'))) of
             Inl e \<Rightarrow> Inl e
           | Inr (propertiesF, rs1, c1) \<Rightarrow>
          (case (if isObject (JObj kvs) then required_field (JObj kvs) else Inr []) of
             Inl e \<Rightarrow> Inl e
           | Inr requiredF \<Rightarrow>
          (case (if \<not> isObject (JObj kvs) then Inr ([], rs1, c1)
                 else if map_of kvs ''additionalProperties'' = Some (JBool False)
                 then Inr ([(''additionalProperties'', JBool False)], rs1, c1)
                 else (case truthy_field (JObj kvs) ''additionalProperties'' of
                         None \<Rightarrow> Inr ([], rs1, c1)
                       | Some ap \<Rightarrow>
                           if is_object ap then
                             (case convertOpenApiSchemaToJsonSchema fuel spec resolveRefs ap rs1 c1 of
                                Inl e \<Rightarrow> Inl e
                              | Inr (v, rs, c') \<Rightarrow> Inr ([(''additionalProperties'', v)], rs, c'))
                           else Inr ([], rs1, c1))) of
             Inl e \<Rightarrow> Inl e
           | Inr (additionalF, rs2, c2) \<Rightarrow>
          (case (case (if isArray (JObj kvs) then truthy_field (JObj kvs) ''items'' else None) of
                   None \<Rightarrow> Inr ([], rs2, c2)
                 | Some items \<Rightarrow>
                     (case convertOpenApiSchemaToJsonSchema fuel spec resolveRefs items rs2 c2 of
                        Inl e \<Rightarrow> Inl e
                      | Inr (v, rs, c') \<Rightarrow> Inr ([(''items'', v)], rs, c'))) of
             Inl e \<Rightarrow> Inl e
           | Inr (itemsF, rs3, c3) \<Rightarrow>
          (case (case truthy_field (JObj kvs) ''oneOf'' of
                   None \<Rightarrow> Inr ([], rs3, c3)
                 | Some composites \<Rightarrow>
                     (case as_array composites of
                        None \<Rightarrow> Inl TypeError
                      | Some xs \<Rightarrow>
                          (case convert_each fuel spec resolveRefs xs rs3 c3 of
                             Inl e \<Rightarrow> Inl e
                           | Inr (vs, rs, c') \<Rightarrow> Inr ([(''oneOf'', JArr vs)], rs, c')))) of
             Inl e \<Rightarrow> Inl e
           | Inr (oneOfF, rs4, c4) \<Rightarrow>
          (case (case truthy_field (JObj kvs) ''anyOf'' of
                   None \<Rightarrow> Inr ([], rs4, c4)
                 | Some composites \<Rightarrow>
                     (case as_array composites of
                        None \<Rightarrow> Inl TypeError
                      | Some xs \<Rightarrow>
                          (case convert_each fuel spec resolveRefs xs rs4 c4 of
                             Inl e \<Rightarrow> Inl e
                           | Inr (vs, rs, c') \<Rightarrow> Inr ([(''anyOf'', JArr vs)], rs, c')))) of
             Inl e \<Rightarrow> Inl e
           | Inr (anyOfF, rs5, c5) \<Rightarrow>
          (case (case truthy_field (JObj kvs) ''allOf'' of
                   None \<Rightarrow> Inr ([], rs5, c5)
                 | Some composites \<Rightarrow>
                     (case as_array composites of
                        None \<Rightarrow> Inl TypeError
                      | Some xs \<Rightarrow>
                          (case convert_each fuel spec resolveRefs xs rs5 c5 of
                             Inl e \<Rightarrow> Inl e
                           | Inr (vs, rs, c') \<Rightarrow> Inr ([(''allOf'', JArr vs)], rs, c')))) of
             Inl e \<Rightarrow> Inl e
           | Inr (allOfF, rs6, c6) \<Rightarrow>
               Inr (JObj (baseF @ propertiesF @ requiredF
                          @ additionalF @ itemsF @ oneOfF @ anyOfF @ allOfF),
                    rs6, c6))))))))))"
| "convertOpenApiSchemaToJsonSchema fuel spec resolveRefs (JArr xs) resolvedRefs c =
     Inr (JObj [], resolvedRefs, c)"
| "convertOpenApiSchemaToJsonSchema fuel spec resolveRefs JNull resolvedRefs c = Inl TypeError"
| "convertOpenApiSchemaToJsonSchema fuel spec resolveRefs (JBool b) resolvedRefs c = Inl TypeError"
| "convertOpenApiSchemaToJsonSchema fuel spec resolveRefs (JNum n) resolvedRefs c = Inl TypeError"
| "convertOpenApiSchemaToJsonSchema fuel spec resolveRefs (JStr s) resolvedRefs c = Inl TypeError"
| "convert_each fuel spec resolveRefs [] resolvedRefs c = Inr ([], resolvedRefs, c)"
| "convert_each fuel spec resolveRefs (s # ss) resolvedRefs c =
     (case convertOpenApiSchemaToJsonSchema fuel spec resolveRefs s resolvedRefs c of
        Inl e \<Rightarrow> Inl e
      | Inr (v, rs1, c1) \<Rightarrow>
          (case convert_each fuel spec resolveRefs ss rs1 c1 of
             Inl e \<Rightarrow> Inl e
           | Inr (vs, rs2, c2) \<Rightarrow> Inr (v # vs, rs2, c2)))"
  by pat_completeness auto

termination
  apply (relation "inv_image (less_than <*lex*> less_than)
      (\<lambda>x. case x of Inl (fuel, spec, rr, s, rs, c) \<Rightarrow> (fuel, jsize s)
                    | Inr (fuel, spec, rr, ss, rs, c) \<Rightarrow> (fuel, jsizes ss))")
  apply (intro wf_inv_image wf_lex_prod wf_less_than)
  apply (simp_all add: jsize_JObj jsize_JArr jsizes_Cons del: jsize.simps split: if_splits)
  apply (erule field_entries_less | erule field_less | erule (1) field_array_less)+
  done

section \<open>Component schemas and selective definitions\<close>

text \<open>
  \<open>convertComponentsToJsonSchema\<close> converts every entry of \<open>components.schemas\<close>, each
  with a new \<open>resolvedRefs\<close> and with \<open>resolveRefs\<close> unset, into a new table.
\<close>

fun convert_components ::
    "nat \<Rightarrow> json \<Rightarrow> (string \<times> json) list \<Rightarrow> (string \<times> json) list \<Rightarrow> converter
     \<Rightarrow> error + ((string \<times> json) list \<times> converter)" where
  "convert_components fuel spec [] schema c = Inr (schema, c)"
| "convert_components fuel spec ((key, value) # rest) schema c =
     (case convertOpenApiSchemaToJsonSchema fuel spec False value {} c of
        Inl e \<Rightarrow> Inl e
      | Inr (v, rs, c') \<Rightarrow>
          if key = ''__proto__'' then Inl Unmodelled
          else convert_components fuel spec rest (obj_set schema key v) c')"

definition convertComponentsToJsonSchema ::
    "nat \<Rightarrow> json \<Rightarrow> converter \<Rightarrow> error + ((string \<times> json) list \<times> converter)" where
  "convertComponentsToJsonSchema fuel spec c =
     (if spec = JNull then Inl TypeError
      else (let components = or_empty (truthy_field spec ''components'') in
            convert_components fuel spec
              (js_entries (or_empty (truthy_field components ''schemas''))) [] c))"

text \<open>\<open>getAllComponentSchemas\<close> computes the table on first use and stores it.\<close>

definition getAllComponentSchemas ::
    "nat \<Rightarrow> json \<Rightarrow> converter \<Rightarrow> error + ((string \<times> json) list \<times> converter)" where
  "getAllComponentSchemas fuel spec c =
     (case allComponentSchemas c of
        Some schemas \<Rightarrow> Inr (schemas, c)
      | None \<Rightarrow>
          (case convertComponentsToJsonSchema fuel spec c of
             Inl e \<Rightarrow> Inl e
           | Inr (schemas, c') \<Rightarrow> Inr (schemas, c'\<lparr>allComponentSchemas := Some schemas\<rparr>)))"

text \<open>\<open>allSchemas[name]\<close>, when truthy.\<close>

definition table_get :: "(string \<times> json) list \<Rightarrow> string \<Rightarrow> error + json option" where
  "table_get t k = dict_get (map_of t k) k"

definition array_field :: "json \<Rightarrow> string \<Rightarrow> json list" where
  "array_field schema k =
     (case js_get schema k of None \<Rightarrow> [] | Some v \<Rightarrow> (case as_array v of None \<Rightarrow> [] | Some xs \<Rightarrow> xs))"

text \<open>
  The schemas \<open>collectReferencedSchemaNames\<close> visits below a schema, in the order of its
  visits: the values of \<open>properties\<close>, \<open>items\<close> (each element when it is an array),
  \<open>additionalProperties\<close>, and the elements of \<open>oneOf\<close>, \<open>anyOf\<close> and \<open>allOf\<close>.
\<close>

definition subschemas :: "json \<Rightarrow> json list" where
  "subschemas schema =
     (case truthy_field schema ''properties'' of
        None \<Rightarrow> []
      | Some p \<Rightarrow> if is_object p then map snd (js_entries p) else [])
     @ (case truthy_field schema ''items'' of
          None \<Rightarrow> []
        | Some i \<Rightarrow> (case as_array i of None \<Rightarrow> [i] | Some xs \<Rightarrow> xs))
     @ (case truthy_field schema ''additionalProperties'' of
          None \<Rightarrow> []
        | Some ap \<Rightarrow> if is_object ap then [ap] else [])
     @ array_field schema ''oneOf'' @ array_field schema ''anyOf'' @ array_field schema ''allOf''"

text \<open>The name after \<open>#/$defs/\<close> when \<open>$ref\<close> is a string that starts with it.\<close>

definition defs_name :: "json \<Rightarrow> string option" where
  "defs_name schema =
     (case js_get schema ''$ref'' of
        None \<Rightarrow> None
      | Some r \<Rightarrow> (case r of
           JStr ref \<Rightarrow> if starts_with defsPrefix ref then Some (drop (length defsPrefix) ref) else None
         | _ \<Rightarrow> None))"

definition jmax :: "json list \<Rightarrow> nat" where
  "jmax xs = foldr (\<lambda>x m. max (Suc (jsize x)) m) xs 0"

lemma jmax_Cons: "jmax (x # xs) = max (Suc (jsize x)) (jmax xs)"
  by (simp add: jmax_def)

lemma jmax_append: "jmax (xs @ ys) = max (jmax xs) (jmax ys)"
  by (induction xs) (auto simp: jmax_def)

lemma jmax_le_jsizes: "jmax xs \<le> jsizes xs"
  by (induction xs) (auto simp: jmax_Cons jsizes_Cons, simp add: jmax_def)

lemma jmax_Nil: "jmax [] = 0"
  by (simp add: jmax_def)

lemma subschemas_size: "jmax (subschemas (JObj kvs)) \<le> Suc (jsizes (map snd kvs))"
proof -
  let ?N = "Suc (jsizes (map snd kvs))"
  have a: "jmax xs \<le> ?N"
    if "map_of kvs k = Some v" "as_array v = Some xs" for k v xs
  proof -
    from that have "v = JArr xs" by (cases v) auto
    with that(1) jsize_map_of [of kvs k v] jmax_le_jsizes [of xs] show ?thesis
      by (simp add: jsize_JArr del: jsize.simps)
  qed
  have b: "jmax [v] \<le> ?N" if "map_of kvs k = Some v" for k v
    using that jsize_map_of [of kvs k v] by (simp add: jmax_Cons jmax_Nil)
  have c: "jmax (map snd (js_entries v)) \<le> ?N" if "map_of kvs k = Some v" for k v
    using that jsize_map_of [of kvs k v] jsize_entries [of v]
      jmax_le_jsizes [of "map snd (js_entries v)"]
    by simp
  have d: "jmax (array_field (JObj kvs) k) \<le> ?N" for k
  proof (cases "map_of kvs k")
    case None then show ?thesis by (simp add: array_field_def jmax_Nil)
  next
    case (Some v)
    show ?thesis
    proof (cases "as_array v")
      case None with Some show ?thesis by (simp add: array_field_def jmax_Nil)
    next
      case (Some xs)
      with \<open>map_of kvs k = Some v\<close> a [of k v xs] show ?thesis by (simp add: array_field_def)
    qed
  qed
  have p1: "jmax (case truthy_field (JObj kvs) ''properties'' of
        None \<Rightarrow> []
      | Some p \<Rightarrow> if is_object p then map snd (js_entries p) else []) \<le> ?N"
  proof (cases "map_of kvs ''properties''")
    case None then show ?thesis by (simp add: truthy_field_def jmax_Nil)
  next
    case (Some v)
    with c [of "''properties''" v] show ?thesis by (simp add: truthy_field_def jmax_Nil)
  qed
  have p2: "jmax (case truthy_field (JObj kvs) ''items'' of
          None \<Rightarrow> []
        | Some i \<Rightarrow> (case as_array i of None \<Rightarrow> [i] | Some xs \<Rightarrow> xs)) \<le> ?N"
  proof (cases "map_of kvs ''items''")
    case None then show ?thesis by (simp add: truthy_field_def jmax_Nil)
  next
    case (Some v)
    show ?thesis
    proof (cases "as_array v")
      case None
      with Some b [of "''items''" v] show ?thesis by (simp add: truthy_field_def jmax_Nil)
    next
      case (Some xs)
      with \<open>map_of kvs ''items'' = Some v\<close> a [of "''items''" v xs] show ?thesis
        by (simp add: truthy_field_def jmax_Nil)
    qed
  qed
  have p3: "jmax (case truthy_field (JObj kvs) ''additionalProperties'' of
          None \<Rightarrow> []
        | Some ap \<Rightarrow> if is_object ap then [ap] else []) \<le> ?N"
  proof (cases "map_of kvs ''additionalProperties''")
    case None then show ?thesis by (simp add: truthy_field_def jmax_Nil)
  next
    case (Some v)
    with b [of "''additionalProperties''" v] show ?thesis by (simp add: truthy_field_def jmax_Nil)
  qed
  show ?thesis
    unfolding subschemas_def jmax_append
    using p1 p2 p3 d [of "''oneOf''"] d [of "''anyOf''"] d [of "''allOf''"]
    by (intro max.boundedI)
qed

lemma measure_aux1: "(m::nat) \<le> Suc j \<Longrightarrow> 2 * m < Suc (Suc (Suc (Suc (Suc (2 * j)))))"
  by arith

lemma measure_aux2: "Suc (2 * (a::nat)) < 2 * max (Suc a) m \<or> Suc (2 * a) = 2 * max (Suc a) m"
  by (simp add: max_def)

lemma measure_aux3: "(m::nat) < max (Suc a) m \<or> m = max (Suc a) m"
  by (simp add: max_def)

text \<open>
  \<open>collectReferencedSchemaNames\<close>: \<open>collected\<close> is the set of names in the order they were
  added. The table of converted components is asked for only when a new name is found; the
  bound is decremented where the collection continues in the entry of the table.
  \<open>collect_each\<close> visits the schemas of a list from left to right.
\<close>

function collectReferencedSchemaNames ::
    "nat \<Rightarrow> json \<Rightarrow> json \<Rightarrow> string list \<Rightarrow> converter \<Rightarrow> error + (string list \<times> converter)"
  and collect_each ::
    "nat \<Rightarrow> json \<Rightarrow> json list \<Rightarrow> string list \<Rightarrow> converter \<Rightarrow> error + (string list \<times> converter)"
where
  "collectReferencedSchemaNames fuel spec (JObj kvs) collected c =
     (case (case defs_name (JObj kvs) of
              None \<Rightarrow> Inr (collected, c)
            | Some schemaName \<Rightarrow>
                if schemaName \<in> set collected then Inr (collected, c)
                else
                  (case getAllComponentSchemas fuel spec c of
                     Inl e \<Rightarrow> Inl e
                   | Inr (allSchemas, c1) \<Rightarrow>
                       (case table_get allSchemas schemaName of
                          Inl e \<Rightarrow> Inl e
                        | Inr None \<Rightarrow> Inr (collected @ [schemaName], c1)
                        | Inr (Some body) \<Rightarrow>
                            (case fuel of
                               0 \<Rightarrow> Inl OutOfFuel
                             | Suc fuel' \<Rightarrow>
                                 collectReferencedSchemaNames fuel' spec body
                                   (collected @ [schemaName]) c1)))) of
        Inl e \<Rightarrow> Inl e
      | Inr (collected1, c1) \<Rightarrow> collect_each fuel spec (subschemas (JObj kvs)) collected1 c1)"
| "collectReferencedSchemaNames fuel spec (JArr xs) collected c = Inr (collected, c)"
| "collectReferencedSchemaNames fuel spec JNull collected c = Inr (collected, c)"
| "collectReferencedSchemaNames fuel spec (JBool b) collected c = Inr (collected, c)"
| "collectReferencedSchemaNames fuel spec (JNum n) collected c = Inr (collected, c)"
| "collectReferencedSchemaNames fuel spec (JStr s) collected c = Inr (collected, c)"
| "collect_each fuel spec [] collected c = Inr (collected, c)"
| "collect_each fuel spec (s # ss) collected c =
     (case collectReferencedSchemaNames fuel spec s collected c of
        Inl e \<Rightarrow> Inl e
      | Inr (collected1, c1) \<Rightarrow> collect_each fuel spec ss collected1 c1)"
  by pat_completeness auto

termination
  apply (relation "inv_image (less_than <*lex*> less_than <*lex*> less_than)
     (\<lambda>x. case x of
        Inl (fuel, spec, s, col, c) \<Rightarrow> (fuel, 2 * jsize s + 1, 0)
      | Inr (fuel, spec, ss, col, c) \<Rightarrow> (fuel, 2 * jmax ss, length ss))")
  apply (intro wf_inv_image wf_lex_prod wf_less_than)
  apply (simp_all add: jsize_JObj jmax_Cons del: jsize.simps)
  apply (rule measure_aux1 [OF subschemas_size])
  apply (rule measure_aux2)
  apply (rule measure_aux3)
  done

text \<open>
  The loop of \<open>buildSelectiveDefs\<close>: every collected name with a truthy entry in the table
  is copied into \<open>selectiveDefs\<close>.
\<close>

fun select_defs ::
    "(string \<times> json) list \<Rightarrow> string list \<Rightarrow> (string \<times> json) list
     \<Rightarrow> error + (string \<times> json) list" where
  "select_defs allSchemas [] selectiveDefs = Inr selectiveDefs"
| "select_defs allSchemas (nm # names) selectiveDefs =
     (case table_get allSchemas nm of
        Inl e \<Rightarrow> Inl e
      | Inr None \<Rightarrow> select_defs allSchemas names selectiveDefs
      | Inr (Some body) \<Rightarrow>
          if assignable nm then select_defs allSchemas names (obj_set selectiveDefs nm body)
          else Inl Unmodelled)"

text \<open>\<open>buildSelectiveDefs\<close>; \<open>None\<close> is the result \<open>undefined\<close>.\<close>

definition buildSelectiveDefs ::
    "nat \<Rightarrow> json \<Rightarrow> json \<Rightarrow> converter \<Rightarrow> error + ((string \<times> json) list option \<times> converter)" where
  "buildSelectiveDefs fuel spec schema c =
     (case collectReferencedSchemaNames fuel spec schema [] c of
        Inl e \<Rightarrow> Inl e
      | Inr (referencedNames, c1) \<Rightarrow>
          if referencedNames = [] then Inr (None, c1)
          else
            (case getAllComponentSchemas fuel spec c1 of
               Inl e \<Rightarrow> Inl e
             | Inr (allSchemas, c2) \<Rightarrow>
                 (case select_defs allSchemas referencedNames [] of
                    Inl e \<Rightarrow> Inl e
                  | Inr selectiveDefs \<Rightarrow>
                      Inr (if selectiveDefs = [] then None else Some selectiveDefs, c2))))"

section \<open>Operations\<close>

text \<open>
  \<open>internalResolveRef(obj.$ref, new Set())\<close> for an object that has an own property
  \<open>$ref\<close>; \<open>ref.startsWith\<close> raises \<open>TypeError\<close> when the pointer is not a string.
\<close>

definition resolve_pointer_of :: "json \<Rightarrow> json \<Rightarrow> error + json option" where
  "resolve_pointer_of spec obj =
     (case js_get obj ''$ref'' of
        None \<Rightarrow> Inl TypeError
      | Some r \<Rightarrow>
          (case r of
             JStr ref \<Rightarrow>
               (case internalResolveRef spec ref {} of
                  Inl e \<Rightarrow> Inl e
                | Inr res \<Rightarrow> Inr (map_option fst res))
           | _ \<Rightarrow> Inl TypeError))"

definition resolveParameter :: "json \<Rightarrow> json \<Rightarrow> error + json option" where
  "resolveParameter spec param =
     (case js_in ''$ref'' param of
        Inl e \<Rightarrow> Inl e
      | Inr isRef \<Rightarrow>
          if \<not> isRef then Inr (Some param)
          else (case resolve_pointer_of spec param of
                  Inl e \<Rightarrow> Inl e
                | Inr None \<Rightarrow> Inr None
                | Inr (Some resolved) \<Rightarrow>
                    if truthy_field resolved ''name'' \<noteq> None then Inr (Some resolved) else Inr None))"

definition resolveRequestBody :: "json \<Rightarrow> json \<Rightarrow> error + json option" where
  "resolveRequestBody spec body =
     (case js_in ''$ref'' body of
        Inl e \<Rightarrow> Inl e
      | Inr isRef \<Rightarrow> if \<not> isRef then Inr (Some body) else resolve_pointer_of spec body)"

definition resolveResponse :: "json \<Rightarrow> json \<Rightarrow> error + json option" where
  "resolveResponse spec response =
     (case js_in ''$ref'' response of
        Inl e \<Rightarrow> Inl e
      | Inr isRef \<Rightarrow> if isRef then resolve_pointer_of spec response else Inr (Some response))"

text \<open>
  The conversion of a reference that does not point into \<open>#/components/schemas/\<close> returns
  the object stored in \<open>schemaCache\<close> under the pointer, unless the reference failed to
  resolve. \<open>shared_result schema c\<close> tells, for the instance \<open>c\<close> after the conversion of
  \<open>schema\<close>, that the result is that stored object. An assignment to a property of it
  would be seen by every other holder of the object; the functions below return
  \<open>Unmodelled\<close> where the code makes one.
\<close>

definition shared_result :: "json \<Rightarrow> converter \<Rightarrow> bool" where
  "shared_result schema c =
     (case js_get schema ''$ref'' of
        Some (JStr ref) \<Rightarrow> \<not> starts_with componentsPrefix ref \<and> schemaCache c ref \<noteq> None
      | _ \<Rightarrow> False)"

text \<open>
  The input schema under construction: its \<open>properties\<close> and its \<open>required\<close> array.
\<close>

type_synonym input_acc = "(string \<times> json) list \<times> json list"

text \<open>The body of the loop over \<open>operation.parameters\<close>.\<close>

definition add_parameter ::
    "nat \<Rightarrow> json \<Rightarrow> json \<Rightarrow> input_acc \<Rightarrow> converter \<Rightarrow> error + (input_acc \<times> converter)" where
  "add_parameter fuel spec param acc c =
     (case resolveParameter spec param of
        Inl e \<Rightarrow> Inl e
      | Inr None \<Rightarrow> Inr (acc, c)
      | Inr (Some paramObj) \<Rightarrow>
          (case truthy_field paramObj ''schema'' of
             None \<Rightarrow> Inr (acc, c)
           | Some paramSchema \<Rightarrow>
               (case convertOpenApiSchemaToJsonSchema fuel spec False paramSchema {} c of
                  Inl e \<Rightarrow> Inl e
                | Inr (schema, rs, c1) \<Rightarrow>
                    if truthy_field paramObj ''description'' \<noteq> None \<and> shared_result paramSchema c1
                    then Inl Unmodelled
                    else
                      (case (case js_get paramObj ''name'' of
                               None \<Rightarrow> Inl Unmodelled
                             | Some n \<Rightarrow> as_text n) of
                         Inl e \<Rightarrow> Inl e
                       | Inr key \<Rightarrow>
                           if \<not> assignable key then Inl Unmodelled
                           else
                             (let schema1 = (case truthy_field paramObj ''description'' of
                                               None \<Rightarrow> schema
                                             | Some d \<Rightarrow> set_prop schema ''description'' d);
                                  properties = obj_set (fst acc) key schema1;
                                  required = (if truthy_field paramObj ''required'' \<noteq> None
                                              then snd acc @ [JStr key]
                                              else snd acc)
                              in Inr ((properties, required), c1))))))"

fun add_parameters ::
    "nat \<Rightarrow> json \<Rightarrow> json list \<Rightarrow> input_acc \<Rightarrow> converter \<Rightarrow> error + (input_acc \<times> converter)" where
  "add_parameters fuel spec [] acc c = Inr (acc, c)"
| "add_parameters fuel spec (param # params) acc c =
     (case add_parameter fuel spec param acc c of
        Inl e \<Rightarrow> Inl e
      | Inr (acc1, c1) \<Rightarrow> add_parameters fuel spec params acc1 c1)"

definition operation_parameters ::
    "nat \<Rightarrow> json \<Rightarrow> json \<Rightarrow> input_acc \<Rightarrow> converter \<Rightarrow> error + (input_acc \<times> converter)" where
  "operation_parameters fuel spec operation acc c =
     (case truthy_field operation ''parameters'' of
        None \<Rightarrow> Inr (acc, c)
      | Some ps \<Rightarrow>
          (case js_iter ps of
             Inl e \<Rightarrow> Inl e
           | Inr params \<Rightarrow> add_parameters fuel spec params acc c))"

text \<open>\<open>content[mediaType]?.schema\<close>, when truthy.\<close>

definition content_schema :: "json \<Rightarrow> string \<Rightarrow> json option" where
  "content_schema content mediaType =
     (case js_get content mediaType of
        None \<Rightarrow> None
      | Some m \<Rightarrow> if m = JNull then None else truthy_field m ''schema'')"

text \<open>The loop that copies the properties of a converted body schema.\<close>

fun merge_properties ::
    "(string \<times> json) list \<Rightarrow> (string \<times> json) list \<Rightarrow> error + (string \<times> json) list" where
  "merge_properties properties [] = Inr properties"
| "merge_properties properties ((nm, propSchema) # rest) =
     (if assignable nm then merge_properties (obj_set properties nm propSchema) rest
      else Inl Unmodelled)"

text \<open>
  Merging the properties and the required names of a converted body schema into the input
  schema; \<open>None\<close> when the converted schema is not an object schema with properties.
\<close>

definition merge_object :: "json \<Rightarrow> input_acc \<Rightarrow> (error + input_acc) option" where
  "merge_object bodySchema acc =
     (case (if js_get bodySchema ''type'' = Some (JStr ''object'')
            then truthy_field bodySchema ''properties'' else None) of
        None \<Rightarrow> None
      | Some ps \<Rightarrow>
          Some (case merge_properties (fst acc) (js_entries ps) of
                  Inl e \<Rightarrow> Inl e
                | Inr properties \<Rightarrow>
                    (case truthy_field bodySchema ''required'' of
                       None \<Rightarrow> Inr (properties, snd acc)
                     | Some r \<Rightarrow>
                         (case js_iter r of
                            Inl e \<Rightarrow> Inl e
                          | Inr names \<Rightarrow> Inr (properties, snd acc @ names)))))"

text \<open>\<open>bodyObj?.content\<close> of the resolved request body, when there is one and it is truthy.\<close>

definition body_content :: "json \<Rightarrow> json \<Rightarrow> error + json option" where
  "body_content spec operation =
     (case truthy_field operation ''requestBody'' of
        None \<Rightarrow> Inr None
      | Some rb \<Rightarrow>
          (case resolveRequestBody spec rb of
             Inl e \<Rightarrow> Inl e
           | Inr None \<Rightarrow> Inr None
           | Inr (Some bodyObj) \<Rightarrow> Inr (truthy_field bodyObj ''content'')))"

text \<open>The request body in \<open>convertOperationToMCPMethod\<close>.\<close>

definition mcp_request_body ::
    "nat \<Rightarrow> json \<Rightarrow> json \<Rightarrow> input_acc \<Rightarrow> converter \<Rightarrow> error + (input_acc \<times> converter)" where
  "mcp_request_body fuel spec operation acc c =
     (case body_content spec operation of
        Inl e \<Rightarrow> Inl e
      | Inr None \<Rightarrow> Inr (acc, c)
      | Inr (Some content) \<Rightarrow>
          (case content_schema content ''multipart/form-data'' of
             Some formIn \<Rightarrow>
               (case convertOpenApiSchemaToJsonSchema fuel spec False formIn {} c of
                  Inl e \<Rightarrow> Inl e
                | Inr (formSchema, rs, c1) \<Rightarrow>
                    (case merge_object formSchema acc of
                       None \<Rightarrow> Inr (acc, c1)
                     | Some (Inl e) \<Rightarrow> Inl e
                     | Some (Inr acc1) \<Rightarrow> Inr (acc1, c1)))
           | None \<Rightarrow>
               (case content_schema content ''application/json'' of
                  None \<Rightarrow> Inr (acc, c)
                | Some bodyIn \<Rightarrow>
                    (case convertOpenApiSchemaToJsonSchema fuel spec False bodyIn {} c of
                       Inl e \<Rightarrow> Inl e
                     | Inr (bodySchema, rs, c1) \<Rightarrow>
                         (case merge_object bodySchema acc of
                            None \<Rightarrow>
                              Inr ((obj_set (fst acc) ''body'' bodySchema,
                                    snd acc @ [JStr ''body'']), c1)
                          | Some (Inl e) \<Rightarrow> Inl e
                          | Some (Inr acc1) \<Rightarrow> Inr (acc1, c1))))))"

text \<open>The request body in \<open>convertOperationToJsonSchema\<close>.\<close>

definition json_request_body ::
    "nat \<Rightarrow> json \<Rightarrow> json \<Rightarrow> input_acc \<Rightarrow> converter \<Rightarrow> error + (input_acc \<times> converter)" where
  "json_request_body fuel spec operation acc c =
     (case body_content spec operation of
        Inl e \<Rightarrow> Inl e
      | Inr None \<Rightarrow> Inr (acc, c)
      | Inr (Some content) \<Rightarrow>
          (case content_schema content ''application/json'' of
             None \<Rightarrow> Inr (acc, c)
           | Some bodyIn \<Rightarrow>
               (case convertOpenApiSchemaToJsonSchema fuel spec False bodyIn {} c of
                  Inl e \<Rightarrow> Inl e
                | Inr (bodySchema, rs, c1) \<Rightarrow>
                    (case merge_object bodySchema acc of
                       None \<Rightarrow> Inr (acc, c1)
                     | Some (Inl e) \<Rightarrow> Inl e
                     | Some (Inr acc1) \<Rightarrow> Inr (acc1, c1)))))"

text \<open>
  The input schema object: \<open>required\<close> is deleted when it is empty, and \<open>$defs\<close> is added
  last when \<open>buildSelectiveDefs\<close> returns a map.
\<close>

definition input_object :: "input_acc \<Rightarrow> json" where
  "input_object acc =
     JObj ([(''type'', JStr ''object''), (''properties'', JObj (fst acc))]
           @ (if snd acc = [] then [] else [(''required'', JArr (snd acc))]))"

definition attach_defs :: "nat \<Rightarrow> json \<Rightarrow> json \<Rightarrow> converter \<Rightarrow> error + (json \<times> converter)" where
  "attach_defs fuel spec schema c =
     (case buildSelectiveDefs fuel spec schema c of
        Inl e \<Rightarrow> Inl e
      | Inr (None, c1) \<Rightarrow> Inr (schema, c1)
      | Inr (Some selectiveDefs, c1) \<Rightarrow> Inr (set_prop schema ''$defs'' (JObj selectiveDefs), c1))"

definition nl :: string where
  "nl = [CHR 0x0A]"

text \<open>\<open>lines.join('\n')\<close>.\<close>

fun join_lines :: "string list \<Rightarrow> string" where
  "join_lines [] = []"
| "join_lines [s] = s"
| "join_lines (s # t # ss) = s @ nl @ join_lines (t # ss)"

text \<open>
  The lines for the responses whose code starts with \<open>4\<close> or \<open>5\<close>: the code and the
  description of the resolved response, the empty string when there is none.
\<close>

fun error_lines :: "json \<Rightarrow> (string \<times> json) list \<Rightarrow> error + string list" where
  "error_lines spec [] = Inr []"
| "error_lines spec ((code, response) # rest) =
     (if starts_with ''4'' code \<or> starts_with ''5'' code then
        (case resolveResponse spec response of
           Inl e \<Rightarrow> Inl e
         | Inr responseObj \<Rightarrow>
             (case as_text (case responseObj of
                              None \<Rightarrow> JStr []
                            | Some r \<Rightarrow> or_empty_string (truthy_field r ''description'')) of
                Inl e \<Rightarrow> Inl e
              | Inr errorDesc \<Rightarrow>
                  (case error_lines spec rest of
                     Inl e \<Rightarrow> Inl e
                   | Inr ls \<Rightarrow> Inr ((code @ '': '' @ errorDesc) # ls))))
      else error_lines spec rest)"

text \<open>\<open>operation.summary || operation.description || ''\<close>.\<close>

definition summary_or_description :: "json \<Rightarrow> json" where
  "summary_or_description operation =
     (case truthy_field operation ''summary'' of
        Some s \<Rightarrow> s
      | None \<Rightarrow> or_empty_string (truthy_field operation ''description''))"

definition build_description :: "json \<Rightarrow> json \<Rightarrow> error + json" where
  "build_description spec operation =
     (case truthy_field operation ''responses'' of
        None \<Rightarrow> Inr (summary_or_description operation)
      | Some responses \<Rightarrow>
          (case error_lines spec (js_entries responses) of
             Inl e \<Rightarrow> Inl e
           | Inr errorResponses \<Rightarrow>
               if errorResponses = [] then Inr (summary_or_description operation)
               else (case as_text (summary_or_description operation) of
                       Inl e \<Rightarrow> Inl e
                     | Inr d \<Rightarrow>
                         Inr (JStr (d @ nl @ ''Error Responses:'' @ nl
                                    @ join_lines errorResponses)))))"

text \<open>
  \<open>responses?.['200'] || responses?.['201'] || responses?.['202'] || responses?.['204']\<close>;
  the argument is \<open>None\<close> when the operation has no \<open>responses\<close>.
\<close>

definition success_response :: "json option \<Rightarrow> json option" where
  "success_response responses =
     (case responses of
        None \<Rightarrow> None
      | Some r \<Rightarrow>
          (case truthy_field r ''200'' of Some x \<Rightarrow> Some x | None \<Rightarrow>
          (case truthy_field r ''201'' of Some x \<Rightarrow> Some x | None \<Rightarrow>
          (case truthy_field r ''202'' of Some x \<Rightarrow> Some x | None \<Rightarrow>
           truthy_field r ''204''))))"

text \<open>\<open>extractResponseType\<close>; \<open>None\<close> is the result \<open>null\<close>.\<close>

definition extractResponseType ::
    "nat \<Rightarrow> json \<Rightarrow> json option \<Rightarrow> converter \<Rightarrow> error + (json option \<times> converter)" where
  "extractResponseType fuel spec responses c =
     (case success_response responses of
        None \<Rightarrow> Inr (None, c)
      | Some successResponse \<Rightarrow>
          (case resolveResponse spec successResponse of
             Inl e \<Rightarrow> Inl e
           | Inr None \<Rightarrow> Inr (None, c)
           | Inr (Some responseObj) \<Rightarrow>
               (case truthy_field responseObj ''content'' of
                  None \<Rightarrow> Inr (None, c)
                | Some content \<Rightarrow>
                    (case content_schema content ''application/json'' of
                       Some schemaIn \<Rightarrow>
                         (case convertOpenApiSchemaToJsonSchema fuel spec False schemaIn {} c of
                            Inl e \<Rightarrow> Inl e
                          | Inr (returnSchema0, rs, c1) \<Rightarrow>
                              (case buildSelectiveDefs fuel spec returnSchema0 c1 of
                                 Inl e \<Rightarrow> Inl e
                               | Inr (selectiveDefs, c2) \<Rightarrow>
                                   if selectiveDefs \<noteq> None \<and> shared_result schemaIn c1
                                   then Inl Unmodelled
                                   else
                                     (let returnSchema1 =
                                            (case selectiveDefs of
                                               None \<Rightarrow> returnSchema0
                                             | Some defs \<Rightarrow> set_prop returnSchema0 ''$defs'' (JObj defs))
                                      in case truthy_field responseObj ''description'' of
                                           None \<Rightarrow> Inr (Some returnSchema1, c2)
                                         | Some d \<Rightarrow>
                                             if truthy_field returnSchema1 ''description'' \<noteq> None
                                             then Inr (Some returnSchema1, c2)
                                             else if shared_result schemaIn c1 then Inl Unmodelled
                                             else Inr (Some (set_prop returnSchema1 ''description'' d), c2))))
                     | None \<Rightarrow>
                         if truthy_field content ''image/png'' \<noteq> None
                            \<or> truthy_field content ''image/jpeg'' \<noteq> None
                         then Inr (Some (JObj [(''type'', JStr ''string''), (''format'', JStr ''binary''),
                                   (''description'', or_empty_string (truthy_field responseObj ''description''))]), c)
                         else Inr (Some (JObj [(''type'', JStr ''string''),
                                   (''description'', or_empty_string (truthy_field responseObj ''description''))]), c)))))"

text \<open>
  \<open>NewToolMethod\<close>. The description is a string in the typings; it is the value of
  \<open>summary\<close> or \<open>description\<close> of the operation when nothing is appended to it.
\<close>

record tool_method =
  name :: string
  description :: json
  inputSchema :: json
  returnSchema :: "json option"

text \<open>
  \<open>operation.operationId\<close>: \<open>None\<close> when it is falsy. Reading it raises \<open>TypeError\<close>
  when the operation is \<open>null\<close>. What the code does with a truthy identifier that is not a
  string is not modelled.
\<close>

definition operationId :: "json \<Rightarrow> error + string option" where
  "operationId operation =
     (case operation of
        JNull \<Rightarrow> Inl TypeError
      | _ \<Rightarrow> (case truthy_field operation ''operationId'' of
                None \<Rightarrow> Inr None
              | Some v \<Rightarrow> (case v of JStr s \<Rightarrow> Inr (Some s) | _ \<Rightarrow> Inl Unmodelled)))"

definition convertOperationToMCPMethod ::
    "nat \<Rightarrow> json \<Rightarrow> json \<Rightarrow> string \<Rightarrow> string \<Rightarrow> converter
     \<Rightarrow> error + (tool_method option \<times> converter)" where
  "convertOperationToMCPMethod fuel spec operation method path c =
     (case operationId operation of
        Inl e \<Rightarrow> Inl e
      | Inr None \<Rightarrow>
          Inr (None, console_log (''Operation without operationId at '' @ method @ '' '' @ path) c)
      | Inr (Some methodName) \<Rightarrow>
          (case operation_parameters fuel spec operation ([], []) c of
             Inl e \<Rightarrow> Inl e
           | Inr (acc1, c1) \<Rightarrow>
          (case mcp_request_body fuel spec operation acc1 c1 of
             Inl e \<Rightarrow> Inl e
           | Inr (acc2, c2) \<Rightarrow>
          (case build_description spec operation of
             Inl e \<Rightarrow> Inl e
           | Inr desc \<Rightarrow>
          (case extractResponseType fuel spec (js_get operation ''responses'') c2 of
             Inl e \<Rightarrow> Inl e
           | Inr (returnType, c3) \<Rightarrow>
          (case attach_defs fuel spec (input_object acc2) c3 of
             Inl e \<Rightarrow> Inl e
           | Inr (inputObj, c4) \<Rightarrow>
               Inr (Some \<lparr>name = methodName, description = desc,
                          inputSchema = inputObj, returnSchema = returnType\<rparr>, c4)))))))"

definition convertOperationToJsonSchema ::
    "nat \<Rightarrow> json \<Rightarrow> json \<Rightarrow> converter \<Rightarrow> error + (json \<times> converter)" where
  "convertOperationToJsonSchema fuel spec operation c =
     (if operation = JNull then Inl TypeError
      else
        (case operation_parameters fuel spec operation ([], []) c of
           Inl e \<Rightarrow> Inl e
         | Inr (acc1, c1) \<Rightarrow>
        (case json_request_body fuel spec operation acc1 c1 of
           Inl e \<Rightarrow> Inl e
         | Inr (acc2, c2) \<Rightarrow> attach_defs fuel spec (input_object acc2) c2)))"

section \<open>The three tool sets\<close>

definition lower_char :: "char \<Rightarrow> char" where
  "lower_char ch =
     (case map_of (zip ''ABCDEFGHIJKLMNOPQRSTUVWXYZ'' ''abcdefghijklmnopqrstuvwxyz'') ch of
        None \<Rightarrow> ch
      | Some l \<Rightarrow> l)"

definition to_lower :: "string \<Rightarrow> string" where
  "to_lower s = map lower_char s"

definition isOperation :: "string \<Rightarrow> bool" where
  "isOperation method = (to_lower method \<in> set [''get'', ''post'', ''put'', ''delete'', ''patch''])"

text \<open>
  \<open>getDescription\<close>; reading \<open>info.title\<close> raises \<open>TypeError\<close> when the document has no
  \<open>info\<close>.
\<close>

definition getDescription :: "json \<Rightarrow> json \<Rightarrow> error + json" where
  "getDescription spec desc =
     (case js_get spec ''info'' of
        None \<Rightarrow> Inl TypeError
      | Some info \<Rightarrow>
          if info = JNull then Inl TypeError
          else if js_get info ''title'' = Some (JStr ''Notion API'')
          then (case as_text desc of
                  Inl e \<Rightarrow> Inl e
                | Inr d \<Rightarrow> Inr (JStr (''Notion | '' @ d)))
          else Inr desc)"

text \<open>
  The result of \<open>convertToMCPTools\<close>: the methods of \<open>tools['API']\<close> and the two lookup
  tables.
\<close>

record registry =
  methods :: "tool_method list"
  openApiLookup :: "(string \<times> json) list"
  zip_lookup :: "(string \<times> json \<times> tool_method) list"

definition apiName :: string where
  "apiName = ''API''"

text \<open>
  The body of the inner loop of \<open>convertToMCPTools\<close>. \<open>shouldIncludeOperation\<close> is imported
  from the filter configuration module; here it is a parameter, applied to the operation
  identifier and the path.
\<close>

definition mcp_operation ::
    "nat \<Rightarrow> json \<Rightarrow> (string \<Rightarrow> string \<Rightarrow> bool) \<Rightarrow> string \<Rightarrow> string \<Rightarrow> json \<Rightarrow> registry \<Rightarrow> converter
     \<Rightarrow> error + (registry \<times> converter)" where
  "mcp_operation fuel spec shouldIncludeOperation path method operation reg c =
     (if \<not> isOperation method then Inr (reg, c)
      else
        (case operationId operation of
           Inl e \<Rightarrow> Inl e
         | Inr opId \<Rightarrow>
             if (case opId of None \<Rightarrow> False | Some i \<Rightarrow> \<not> shouldIncludeOperation i path)
             then Inr (reg, c)
             else
               (case convertOperationToMCPMethod fuel spec operation method path c of
                  Inl e \<Rightarrow> Inl e
                | Inr (None, c1) \<Rightarrow> Inr (reg, c1)
                | Inr (Some mcpMethod, c1) \<Rightarrow>
                    (let (uniqueName, counter) = ensureUniqueName (name mcpMethod) (nameCounter c1);
                         c2 = c1\<lparr>nameCounter := counter\<rparr> in
                     case getDescription spec (description mcpMethod) of
                       Inl e \<Rightarrow> Inl e
                     | Inr desc \<Rightarrow>
                         (let m = mcpMethod\<lparr>name := uniqueName, description := desc\<rparr>;
                              openApi = JObj (obj_set (obj_set (js_entries operation)
                                          ''method'' (JStr method)) ''path'' (JStr path));
                              key = apiName @ ''-'' @ uniqueName in
                          Inr (\<lparr>methods = methods reg @ [m],
                                openApiLookup = obj_set (openApiLookup reg) key openApi,
                                zip_lookup = obj_set (zip_lookup reg) key (openApi, m)\<rparr>, c2))))))"

fun mcp_operations ::
    "nat \<Rightarrow> json \<Rightarrow> (string \<Rightarrow> string \<Rightarrow> bool) \<Rightarrow> string \<Rightarrow> (string \<times> json) list \<Rightarrow> registry \<Rightarrow> converter
     \<Rightarrow> error + (registry \<times> converter)" where
  "mcp_operations fuel spec f path [] reg c = Inr (reg, c)"
| "mcp_operations fuel spec f path ((method, operation) # rest) reg c =
     (case mcp_operation fuel spec f path method operation reg c of
        Inl e \<Rightarrow> Inl e
      | Inr (reg1, c1) \<Rightarrow> mcp_operations fuel spec f path rest reg1 c1)"

fun mcp_paths ::
    "nat \<Rightarrow> json \<Rightarrow> (string \<Rightarrow> string \<Rightarrow> bool) \<Rightarrow> (string \<times> json) list \<Rightarrow> registry \<Rightarrow> converter
     \<Rightarrow> error + (registry \<times> converter)" where
  "mcp_paths fuel spec f [] reg c = Inr (reg, c)"
| "mcp_paths fuel spec f ((path, pathItem) # rest) reg c =
     (if \<not> truthy pathItem then mcp_paths fuel spec f rest reg c
      else
        (case mcp_operations fuel spec f path (js_entries pathItem) reg c of
           Inl e \<Rightarrow> Inl e
         | Inr (reg1, c1) \<Rightarrow> mcp_paths fuel spec f rest reg1 c1))"

text \<open>\<open>Object.entries(this.openApiSpec.paths || {})\<close>.\<close>

definition spec_paths :: "json \<Rightarrow> (string \<times> json) list" where
  "spec_paths spec = js_entries (or_empty (truthy_field spec ''paths''))"

definition convertToMCPTools ::
    "nat \<Rightarrow> json \<Rightarrow> (string \<Rightarrow> string \<Rightarrow> bool) \<Rightarrow> converter \<Rightarrow> error + (registry \<times> converter)" where
  "convertToMCPTools fuel spec shouldIncludeOperation c =
     (if spec = JNull then Inl TypeError
      else mcp_paths fuel spec shouldIncludeOperation (spec_paths spec)
             \<lparr>methods = [], openApiLookup = [], zip_lookup = []\<rparr> c)"








section \<open>Notions used to state the properties\<close>

text \<open>
  \<open>kept3 Q c r\<close> and \<open>kept2 Q c r\<close>: when \<open>r\<close> is a result, the instance it returns is
  related by \<open>Q\<close> to the instance \<open>c\<close>.
\<close>

definition kept3 :: "(converter \<Rightarrow> converter \<Rightarrow> bool) \<Rightarrow> converter
    \<Rightarrow> error + ('a \<times> 'b \<times> converter) \<Rightarrow> bool" where
  "kept3 Q c r = (case r of Inl e \<Rightarrow> True | Inr (v, rs, c') \<Rightarrow> Q c c')"

definition kept2 :: "(converter \<Rightarrow> converter \<Rightarrow> bool) \<Rightarrow> converter
    \<Rightarrow> error + ('a \<times> converter) \<Rightarrow> bool" where
  "kept2 Q c r = (case r of Inl e \<Rightarrow> True | Inr (v, c') \<Rightarrow> Q c c')"

text \<open>A relation between instances that every update of the cache and of the log respects.\<close>

definition frame :: "(converter \<Rightarrow> converter \<Rightarrow> bool) \<Rightarrow> bool" where
  "frame Q = ((\<forall>c. Q c c) \<and> (\<forall>a b c. Q a b \<longrightarrow> Q b c \<longrightarrow> Q a c)
      \<and> (\<forall>c m. Q c (console_log m c))
      \<and> (\<forall>c f. Q c (c\<lparr>schemaCache := f\<rparr>)))"

definition frame_table :: "(converter \<Rightarrow> converter \<Rightarrow> bool) \<Rightarrow> bool" where
  "frame_table Q = (frame Q \<and> (\<forall>c t. Q c (c\<lparr>allComponentSchemas := t\<rparr>)))"

text \<open>No function but \<open>generateUniqueSuffix\<close> assigns \<open>nameCounter\<close>.\<close>

definition same_counter :: "converter \<Rightarrow> converter \<Rightarrow> bool" where
  "same_counter c c' = (nameCounter c' = nameCounter c)"

text \<open>
  The identifiers of the operations for which a run of \<open>convertToMCPTools\<close> emits a tool,
  in the order of the document: the operations under an HTTP method whose \<open>operationId\<close>
  is a non-empty string that the filter accepts.
\<close>

definition http_methods :: "string list" where
  "http_methods = [''get'', ''post'', ''put'', ''delete'', ''patch'']"

definition operation_ids :: "(string \<Rightarrow> string \<Rightarrow> bool) \<Rightarrow> string \<Rightarrow> string \<times> json \<Rightarrow> string list" where
  "operation_ids f path entry =
     (case js_get (snd entry) ''operationId'' of
        Some (JStr i) \<Rightarrow>
          if to_lower (fst entry) \<in> set http_methods \<and> i \<noteq> [] \<and> f i path then [i] else []
      | _ \<Rightarrow> [])"

definition path_ids :: "(string \<Rightarrow> string \<Rightarrow> bool) \<Rightarrow> string \<times> json \<Rightarrow> string list" where
  "path_ids f entry =
     (if truthy (snd entry) then concat (map (operation_ids f (fst entry)) (js_entries (snd entry)))
      else [])"

definition emitted_ids :: "(string \<Rightarrow> string \<Rightarrow> bool) \<Rightarrow> json \<Rightarrow> string list" where
  "emitted_ids f spec =
     concat (map (path_ids f) (js_entries (or_empty (truthy_field spec ''paths''))))"

text \<open>
  The names \<open>ensureUniqueName\<close> gives to a sequence of identifiers, starting from a value
  of the counter, and the counter after them.
\<close>

fun names_from :: "nat \<Rightarrow> string list \<Rightarrow> string list" where
  "names_from k [] = []"
| "names_from k (i # ids) =
     fst (ensureUniqueName i k) # names_from (snd (ensureUniqueName i k)) ids"

fun counter_after :: "nat \<Rightarrow> string list \<Rightarrow> nat" where
  "counter_after k [] = k"
| "counter_after k (i # ids) = counter_after (snd (ensureUniqueName i k)) ids"

definition two_long_spec :: json where
  "two_long_spec =
     JObj [(''info'', JObj [(''title'', JStr ''Demo'')]),
           (''paths'', JObj
              [(''/a'', JObj [(''get'', JObj [(''operationId'', JStr ''listItems'')]),
                              (''post'', JObj [(''operationId'', JStr (replicate 80 (CHR ''a'')))])]),
               (''/b'', JObj [(''get'', JObj [(''operationId'', JStr ''getItem'')]),
                              (''put'', JObj [(''operationId'', JStr (replicate 70 (CHR ''b'')))])])])]"






text \<open>
  The parameters the claim is about: an object or array without a truthy \<open>schema\<close>, and a
  reference that does not resolve, or resolves to a value without a truthy \<open>name\<close> or
  without a truthy \<open>schema\<close>.
\<close>

definition omitted_parameter :: "json \<Rightarrow> json \<Rightarrow> bool" where
  "omitted_parameter spec param =
     (case param of
        JObj kvs \<Rightarrow>
          (case map_of kvs ''$ref'' of
             None \<Rightarrow> truthy_field param ''schema'' = None
           | Some (JStr ref) \<Rightarrow>
               (case internalResolveRef spec ref {} of
                  Inr None \<Rightarrow> True
                | Inr (Some (resolved, rs)) \<Rightarrow>
                    truthy_field resolved ''name'' = None \<or> truthy_field resolved ''schema'' = None
                | Inl e \<Rightarrow> False)
           | Some _ \<Rightarrow> False)
      | JArr xs \<Rightarrow> True
      | _ \<Rightarrow> False)"

definition unnamed_limit :: json where
  "unnamed_limit = JObj [(''name'', JStr ''limit''), (''in'', JStr ''query'')]"

definition page_parameter :: json where
  "page_parameter = JObj [(''name'', JStr ''page''), (''schema'', JObj [(''type'', JStr ''integer'')])]"




section \<open>What the functions leave unchanged in the instance\<close>

lemma frame_refl: "frame Q \<Longrightarrow> Q c c"
  by (simp add: frame_def)

lemma frame_trans: "frame Q \<Longrightarrow> Q a b \<Longrightarrow> Q b c \<Longrightarrow> Q a c"
  unfolding frame_def by blast

lemma frame_log: "frame Q \<Longrightarrow> Q c (console_log m c)"
  by (simp add: frame_def)

lemma frame_cache: "frame Q \<Longrightarrow> Q c (c\<lparr>schemaCache := f\<rparr>)"
  by (simp add: frame_def)

lemma kept3_Inl: "kept3 Q c (Inl e)"
  by (simp add: kept3_def)

lemma kept3_Inr: "Q c c' \<Longrightarrow> kept3 Q c (Inr (v, rs, c'))"
  by (simp add: kept3_def)

lemma kept3_bind:
  assumes "frame Q" "kept3 Q c r"
    and "\<And>v rs c1. r = Inr (v, rs, c1) \<Longrightarrow> kept3 Q c1 (f v rs c1)"
  shows "kept3 Q c (case r of Inl e \<Rightarrow> Inl e | Inr (v, rs, c1) \<Rightarrow> f v rs c1)"
  using assms by (auto simp: kept3_def split: sum.splits intro: frame_trans)

lemma kept3_pre: "frame Q \<Longrightarrow> Q c c1 \<Longrightarrow> kept3 Q c1 r \<Longrightarrow> kept3 Q c r"
  by (auto simp: kept3_def split: sum.splits intro: frame_trans)

lemma kept3_each:
  assumes Q: "frame Q"
    and "\<And>x rs c. x \<in> set xs \<Longrightarrow> kept3 Q c (convertOpenApiSchemaToJsonSchema fuel spec rr x rs c)"
  shows "kept3 Q c (convert_each fuel spec rr xs rs c)"
  using assms(2)
proof (induction xs arbitrary: rs c)
  case Nil
  then show ?case by (simp add: kept3_Inr frame_refl [OF Q])
next
  case (Cons x xs)
  show ?case
    unfolding convert_each.simps
  proof (rule kept3_bind [OF Q])
    show "kept3 Q c (convertOpenApiSchemaToJsonSchema fuel spec rr x rs c)"
      using Cons.prems by simp
  next
    fix v rs1 c1
    have "kept3 Q c1 (convert_each fuel spec rr xs rs1 c1)"
      using Cons.IH [of c1 rs1] Cons.prems by simp
    then show "kept3 Q c1 (case convert_each fuel spec rr xs rs1 c1 of
        Inl e \<Rightarrow> Inl e | Inr (vs, rs2, c2) \<Rightarrow> Inr (v # vs, rs2, c2))"
      by (auto simp: kept3_def split: sum.splits)
  qed
qed

lemma convert_kept:
  assumes Q: "frame Q"
  shows "kept3 Q c (convertOpenApiSchemaToJsonSchema fuel spec rr x rs c)"
proof (induction fuel arbitrary: x rs c rule: less_induct)
  case (less fuel)
  note outer = less.IH
  show ?case
  proof (induction x arbitrary: rs c rule: measure_induct_rule [of jsize])
    case (less x)
    note inner = less.IH
    note r = frame_refl [OF Q]
    show ?case
    proof (cases x)
      case (JObj kvs)
      have F1: "kept3 Q c' (convertOpenApiSchemaToJsonSchema fuel spec rr v rs' c')"
        if "truthy_field (JObj kvs) k = Some v" for k v rs' c'
        using inner [of v c' rs'] field_less [OF that] JObj
        by (auto simp add: jsize_JObj simp del: jsize.simps)
      have each: "kept3 Q c' (convert_each fuel spec rr xs rs' c')"
        if "jsizes xs < jsize x" for xs rs' c'
      proof (rule kept3_each [OF Q])
        fix y rs2 c2 assume "y \<in> set xs"
        with that jsize_mem_jsizes [of y xs] inner [of y c2 rs2]
        show "kept3 Q c2 (convertOpenApiSchemaToJsonSchema fuel spec rr y rs2 c2)"
          by auto
      qed
      have F2: "kept3 Q c' (convert_each fuel spec rr xs rs' c')"
        if "truthy_field (JObj kvs) k = Some v" "as_array v = Some xs" for k v xs rs' c'
        using each [of xs c' rs'] field_array_less [OF that] JObj
        by (auto simp add: jsize_JObj simp del: jsize.simps)
      have F3: "kept3 Q c' (convert_each fuel spec rr (map snd (js_entries v)) rs' c')"
        if "truthy_field (JObj kvs) k = Some v" for k v rs' c'
        using each [of "map snd (js_entries v)" c' rs'] field_entries_less [OF that] JObj
        by (auto simp add: jsize_JObj simp del: jsize.simps)
      show ?thesis
      proof (cases "map_of kvs ''$ref''")
        case None
        show ?thesis
          unfolding JObj
          apply (subst convertOpenApiSchemaToJsonSchema.simps(1))
          apply (simp only: None option.case)
          apply (cases "base_fields (JObj kvs)")
           apply (simp add: kept3_Inl)
          apply (simp only: sum.case)
          apply (rule kept3_bind [OF Q])
          subgoal using F3 by (auto split: option.splits intro!: kept3_bind [OF Q] kept3_Inr r simp: kept3_Inl)
          apply (cases "if isObject (JObj kvs) then required_field (JObj kvs) else Inr []")
           apply (simp add: kept3_Inl)
          apply (simp only: sum.case)
          apply (rule kept3_bind [OF Q])
          subgoal using F1 by (auto split: option.splits intro!: kept3_bind [OF Q] kept3_Inr r simp: kept3_Inl)
          apply (rule kept3_bind [OF Q])
          subgoal using F1 by (auto split: option.splits intro!: kept3_bind [OF Q] kept3_Inr r simp: kept3_Inl)
          apply (rule kept3_bind [OF Q])
          subgoal using F2 by (auto split: option.splits intro!: kept3_bind [OF Q] kept3_Inr r simp: kept3_Inl)
          apply (rule kept3_bind [OF Q])
          subgoal using F2 by (auto split: option.splits intro!: kept3_bind [OF Q] kept3_Inr r simp: kept3_Inl)
          apply (rule kept3_bind [OF Q])
          subgoal using F2 by (auto split: option.splits intro!: kept3_bind [OF Q] kept3_Inr r simp: kept3_Inl)
          apply (simp add: kept3_Inr r)
          done
      next
        case (Some refv)
        show ?thesis
        proof (cases refv)
          case (JStr ref)
          have rec: "kept3 Q c1 (case fuel of 0 \<Rightarrow> Inl OutOfFuel
                | Suc f \<Rightarrow>
                (case convertOpenApiSchemaToJsonSchema f spec rr t rs1 c1 of
                Inl e \<Rightarrow> Inl e
              | Inr (converted, rs2, c2) \<Rightarrow>
                  Inr (converted, rs2, c2\<lparr>schemaCache := (schemaCache c2)(ref \<mapsto> converted)\<rparr>)))"
            for c1 t rs1
          proof (cases fuel)
            case 0 then show ?thesis by (simp add: kept3_Inl)
          next
            case (Suc f)
            have "kept3 Q c1 (convertOpenApiSchemaToJsonSchema f spec rr t rs1 c1)"
              using outer [of f c1 t rs1] Suc by simp
            then show ?thesis using Suc
              by (auto simp: kept3_def split: sum.splits
                  intro: frame_trans [OF Q _ frame_cache [OF Q]])
          qed
          have body: "kept3 Q c1 (case dict_get (schemaCache c1 ref) ref of
                    Inl e \<Rightarrow> Inl e
                  | Inr (Some cached) \<Rightarrow> Inr (cached, rs, c1)
                  | Inr None \<Rightarrow>
                      (case internalResolveRef spec ref rs of
                         Inl e \<Rightarrow> Inl e
                       | Inr None \<Rightarrow>
                           Inr (failed_ref_node (JObj kvs) ref, rs,
                                console_log (''Failed to resolve ref '' @ ref) c1)
                       | Inr (Some (resolved, resolvedRefs1)) \<Rightarrow>
                           (case fuel of
                              0 \<Rightarrow> Inl OutOfFuel
                            | Suc fuel' \<Rightarrow>
                                (case convertOpenApiSchemaToJsonSchema fuel' spec rr resolved
                                        resolvedRefs1 c1 of
                                   Inl e \<Rightarrow> Inl e
                                 | Inr (converted, resolvedRefs2, c2) \<Rightarrow>
                                     Inr (converted, resolvedRefs2,
                                          c2\<lparr>schemaCache := (schemaCache c2)(ref \<mapsto> converted)\<rparr>)))))"
            for c1
            using rec [of c1]
            by (auto simp: kept3_Inl kept3_Inr r frame_log [OF Q] split: sum.splits option.splits)
          show ?thesis
          proof (cases "\<not> rr \<and> starts_with componentsPrefix ref")
            case True
            with Some JStr show ?thesis unfolding JObj by (simp add: kept3_Inr r)
          next
            case False
            show ?thesis
              unfolding JObj
              apply (subst convertOpenApiSchemaToJsonSchema.simps(1))
              apply (simp only: Some option.case JStr json.case Let_def False if_False)
              apply (rule kept3_pre [OF Q _ body])
              apply (simp add: r frame_log [OF Q])
              done
          qed
        qed (simp_all add: JObj Some kept3_Inl)
      qed
    qed (simp_all add: kept3_Inl kept3_Inr r)
  qed
qed

lemma frame_table_frame: "frame_table Q \<Longrightarrow> frame Q"
  by (simp add: frame_table_def)

lemma frame_table_set: "frame_table Q \<Longrightarrow> Q c (c\<lparr>allComponentSchemas := t\<rparr>)"
  by (simp add: frame_table_def)

lemma kept2_Inl: "kept2 Q c (Inl e)"
  by (simp add: kept2_def)

lemma kept2_Inr: "Q c c' \<Longrightarrow> kept2 Q c (Inr (v, c'))"
  by (simp add: kept2_def)

lemma kept2_bind:
  assumes "frame Q" "kept2 Q c r"
    and "\<And>v c1. r = Inr (v, c1) \<Longrightarrow> kept2 Q c1 (f v c1)"
  shows "kept2 Q c (case r of Inl e \<Rightarrow> Inl e | Inr (v, c1) \<Rightarrow> f v c1)"
  using assms by (auto simp: kept2_def split: sum.splits intro: frame_trans)

lemma kept32_bind:
  assumes "frame Q" "kept3 Q c r"
    and "\<And>v rs c1. r = Inr (v, rs, c1) \<Longrightarrow> kept2 Q c1 (f v rs c1)"
  shows "kept2 Q c (case r of Inl e \<Rightarrow> Inl e | Inr (v, rs, c1) \<Rightarrow> f v rs c1)"
  using assms by (auto simp: kept2_def kept3_def split: sum.splits intro: frame_trans)

lemma convert_components_kept:
  assumes Q: "frame Q"
  shows "kept2 Q c (convert_components fuel spec kvs schema c)"
proof (induction kvs arbitrary: schema c)
  case Nil
  show ?case by (simp add: kept2_Inr frame_refl [OF Q])
next
  case (Cons kv kvs)
  obtain key val where kv: "kv = (key, val)" by (cases kv)
  show ?case
    unfolding kv convert_components.simps
    apply (rule kept32_bind [OF Q convert_kept [OF Q]])
    using Cons.IH by (simp add: kept2_Inl)
qed

lemma getAll_kept:
  assumes Q: "frame_table Q"
  shows "kept2 Q c (getAllComponentSchemas fuel spec c)"
proof -
  note F = frame_table_frame [OF Q]
  have "kept2 Q c (convertComponentsToJsonSchema fuel spec c)"
    by (simp add: convertComponentsToJsonSchema_def Let_def kept2_Inl convert_components_kept [OF F])
  then show ?thesis
    unfolding getAllComponentSchemas_def
    by (auto simp: kept2_def frame_refl [OF F] split: option.splits sum.splits
        intro: frame_trans [OF F _ frame_table_set [OF Q]])
qed

lemma collect_kept:
  assumes Q: "frame_table Q"
  shows "kept2 Q c (collectReferencedSchemaNames fuel spec s col c)"
    and "kept2 Q c (collect_each fuel spec ss col c)"
proof (induction fuel spec s col c and fuel spec ss col c
    rule: collectReferencedSchemaNames_collect_each.induct)
  case (1 fuel spec kvs collected c)
  note F = frame_table_frame [OF Q]
  show ?case
    apply (subst collectReferencedSchemaNames.simps(1))
    apply (rule kept2_bind [OF F])
    subgoal
      apply (cases "defs_name (JObj kvs)")
       apply (simp add: kept2_Inr frame_refl [OF F])
      subgoal for schemaName
        apply (simp only: option.case)
        apply (cases "schemaName \<in> set collected")
         apply (simp add: kept2_Inr frame_refl [OF F])
        apply (simp only: if_False)
        apply (rule kept2_bind [OF F getAll_kept [OF Q]])
        subgoal for allSchemas c1
          using "1.IH"(1) [of schemaName "(allSchemas, c1)" allSchemas c1]
          by (auto simp: kept2_Inl kept2_Inr frame_refl [OF F] split: sum.splits option.splits nat.splits)
        done
      done
    subgoal for v c1
      using "1.IH"(2) [of "(v, c1)" v c1] by simp
    done
next
  case (8 fuel spec s ss collected c)
  note F = frame_table_frame [OF Q]
  show ?case
    apply (subst collect_each.simps(2))
    apply (rule kept2_bind [OF F "8.IH"(1)])
    subgoal for v c1 using "8.IH"(2) [of "(v, c1)" v c1] by simp
    done
qed (simp_all add: kept2_Inr frame_refl [OF frame_table_frame [OF Q]])

lemma buildSelectiveDefs_kept:
  assumes Q: "frame_table Q"
  shows "kept2 Q c (buildSelectiveDefs fuel spec schema c)"
proof -
  note F = frame_table_frame [OF Q]
  show ?thesis
    unfolding buildSelectiveDefs_def
    apply (rule kept2_bind [OF F collect_kept(1) [OF Q]])
    subgoal for names c1
      using getAll_kept [OF Q, of c1 fuel spec]
      by (auto simp: kept2_def frame_refl [OF F] split: sum.splits)
    done
qed

lemma attach_defs_kept:
  assumes Q: "frame_table Q"
  shows "kept2 Q c (attach_defs fuel spec schema c)"
  using buildSelectiveDefs_kept [OF Q, of c fuel spec schema]
  by (auto simp: attach_defs_def kept2_def split: sum.splits option.splits)

lemma convert_keptD:
  "frame Q \<Longrightarrow> convertOpenApiSchemaToJsonSchema fuel spec rr x rs c = Inr (v, rs', c') \<Longrightarrow> Q c c'"
  using convert_kept [of Q c fuel spec rr x rs] by (simp add: kept3_def)

lemma kept2D: "kept2 Q c r \<Longrightarrow> r = Inr (v, c') \<Longrightarrow> Q c c'"
  by (simp add: kept2_def)

lemma kept2I: "(\<And>v c'. r = Inr (v, c') \<Longrightarrow> Q c c') \<Longrightarrow> kept2 Q c r"
  by (auto simp: kept2_def split: sum.splits)

lemma add_parameter_kept:
  assumes Q: "frame Q"
  shows "kept2 Q c (add_parameter fuel spec param acc c)"
  unfolding add_parameter_def
  by (auto simp: kept2_def frame_refl [OF Q] Let_def
      split: sum.splits option.splits dest: convert_keptD [OF Q])

lemma add_parameters_kept:
  assumes Q: "frame Q"
  shows "kept2 Q c (add_parameters fuel spec params acc c)"
proof (induction params arbitrary: acc c)
  case Nil
  show ?case by (simp add: kept2_Inr frame_refl [OF Q])
next
  case (Cons p ps)
  show ?case
    unfolding add_parameters.simps
    by (rule kept2_bind [OF Q add_parameter_kept [OF Q]]) (rule Cons.IH)
qed

lemma operation_parameters_kept:
  assumes Q: "frame Q"
  shows "kept2 Q c (operation_parameters fuel spec operation acc c)"
  unfolding operation_parameters_def
  by (auto simp: kept2_Inl kept2_Inr frame_refl [OF Q] add_parameters_kept [OF Q]
      split: option.splits sum.splits)

lemma mcp_request_body_kept:
  assumes Q: "frame Q"
  shows "kept2 Q c (mcp_request_body fuel spec operation acc c)"
  unfolding mcp_request_body_def
  by (auto simp: kept2_def frame_refl [OF Q]
      split: sum.splits option.splits dest: convert_keptD [OF Q])

lemma json_request_body_kept:
  assumes Q: "frame Q"
  shows "kept2 Q c (json_request_body fuel spec operation acc c)"
  unfolding json_request_body_def
  by (auto simp: kept2_def frame_refl [OF Q]
      split: sum.splits option.splits dest: convert_keptD [OF Q])

lemma extractResponseType_kept:
  assumes Q: "frame_table Q"
  shows "kept2 Q c (extractResponseType fuel spec responses c)"
proof (rule kept2I)
  note F = frame_table_frame [OF Q]
  fix v c'
  assume "extractResponseType fuel spec responses c = Inr (v, c')"
  then show "Q c c'"
    unfolding extractResponseType_def
    by (auto simp: frame_refl [OF F] Let_def
        split: sum.splits option.splits if_splits
        dest!: convert_keptD [OF F] kept2D [OF buildSelectiveDefs_kept [OF Q]]
        ; blast intro: frame_trans [OF F])
qed

lemma convertOperationToMCPMethod_kept:
  assumes Q: "frame_table Q"
  shows "kept2 Q c (convertOperationToMCPMethod fuel spec operation method path c)"
proof (rule kept2I)
  note F = frame_table_frame [OF Q]
  fix v c'
  assume "convertOperationToMCPMethod fuel spec operation method path c = Inr (v, c')"
  then show "Q c c'"
    unfolding convertOperationToMCPMethod_def
    by (auto simp: frame_refl [OF F] frame_log [OF F]
        split: sum.splits option.splits
        dest!: kept2D [OF operation_parameters_kept [OF F]]
          kept2D [OF mcp_request_body_kept [OF F]]
          kept2D [OF extractResponseType_kept [OF Q]]
          kept2D [OF attach_defs_kept [OF Q]]
        ; blast intro: frame_trans [OF F])
qed

lemma convertOperationToJsonSchema_kept:
  assumes Q: "frame_table Q"
  shows "kept2 Q c (convertOperationToJsonSchema fuel spec operation c)"
proof (rule kept2I)
  note F = frame_table_frame [OF Q]
  fix v c'
  assume "convertOperationToJsonSchema fuel spec operation c = Inr (v, c')"
  then show "Q c c'"
    unfolding convertOperationToJsonSchema_def
    by (auto simp: frame_refl [OF F]
        split: sum.splits option.splits if_splits
        dest!: kept2D [OF operation_parameters_kept [OF F]]
          kept2D [OF json_request_body_kept [OF F]]
          kept2D [OF attach_defs_kept [OF Q]]
        ; blast intro: frame_trans [OF F])
qed

lemma frame_same_counter: "frame_table same_counter"
  by (simp add: frame_table_def frame_def same_counter_def console_log_def)

lemma convertOperationToMCPMethod_counter:
  "convertOperationToMCPMethod fuel spec operation method path c = Inr (m, c') \<Longrightarrow>
   nameCounter c' = nameCounter c"
  using kept2D [OF convertOperationToMCPMethod_kept [OF frame_same_counter]]
  by (simp add: same_counter_def)

section \<open>The names of the registry\<close>



lemma names_from_append:
  "names_from k (xs @ ys) = names_from k xs @ names_from (counter_after k xs) ys"
  by (induction xs arbitrary: k) simp_all

lemma counter_after_append:
  "counter_after k (xs @ ys) = counter_after (counter_after k xs) ys"
  by (induction xs arbitrary: k) simp_all








lemma isOperation_http: "isOperation method = (to_lower method \<in> set http_methods)"
  by (simp add: isOperation_def http_methods_def)

lemma convertOperationToMCPMethod_name:
  assumes "convertOperationToMCPMethod fuel spec operation method path c = Inr (r, c1)"
    and "operationId operation = Inr (Some i)"
  shows "\<exists>m. r = Some m \<and> name m = i"
  using assms unfolding convertOperationToMCPMethod_def
  by (auto split: sum.splits)

lemma convertOperationToMCPMethod_none:
  assumes "convertOperationToMCPMethod fuel spec operation method path c = Inr (r, c1)"
    and "operationId operation = Inr None"
  shows "r = None"
  using assms unfolding convertOperationToMCPMethod_def by auto

lemma operationId_Some:
  "operationId operation = Inr (Some i) \<Longrightarrow> js_get operation ''operationId'' = Some (JStr i) \<and> i \<noteq> []"
  by (auto simp: operationId_def truthy_field_def split: json.splits option.splits if_splits)

lemma operationId_None:
  "operationId operation = Inr None \<Longrightarrow>
   (case js_get operation ''operationId'' of Some (JStr i) \<Rightarrow> i = [] | _ \<Rightarrow> True)"
  by (auto simp: operationId_def truthy_field_def split: json.splits option.splits if_splits)

text \<open>
  One step of the inner loop: the method appended to the registry has the name that
  \<open>ensureUniqueName\<close> returns for the identifier at the counter of the instance.
\<close>

lemma mcp_operation_names:
  assumes "mcp_operation fuel spec f path method operation reg c = Inr (reg', c')"
  shows "map name (methods reg')
           = map name (methods reg) @ names_from (nameCounter c) (operation_ids f path (method, operation))
         \<and> nameCounter c' = counter_after (nameCounter c) (operation_ids f path (method, operation))"
proof (cases "isOperation method")
  case False
  with assms show ?thesis
    by (auto simp: mcp_operation_def operation_ids_def isOperation_http split: option.splits json.splits)
next
  case True
  then obtain opId where opId: "operationId operation = Inr opId"
    using assms by (auto simp: mcp_operation_def split: sum.splits)
  show ?thesis
  proof (cases opId)
    case None
    from operationId_None [OF opId [unfolded None]]
    have ids: "operation_ids f path (method, operation) = []"
      by (auto simp: operation_ids_def split: option.splits json.splits)
    from assms True opId None obtain r c1 where
      conv: "convertOperationToMCPMethod fuel spec operation method path c = Inr (r, c1)"
      by (auto simp: mcp_operation_def split: sum.splits)
    from convertOperationToMCPMethod_none [OF conv opId [unfolded None]]
    have r: "r = None" .
    from assms True opId None conv r have "reg' = reg" "c' = c1"
      by (simp_all add: mcp_operation_def)
    with convertOperationToMCPMethod_counter [OF conv] ids show ?thesis by simp
  next
    case (Some i)
    note get = operationId_Some [OF opId [unfolded Some]]
    show ?thesis
    proof (cases "f i path")
      case False
      with get have "operation_ids f path (method, operation) = []"
        by (simp add: operation_ids_def)
      with assms True opId Some False show ?thesis
        by (simp add: mcp_operation_def)
    next
      case accepted: True
      with get True have ids: "operation_ids f path (method, operation) = [i]"
        by (simp add: operation_ids_def isOperation_http)
      from assms True opId Some accepted obtain r c1 where
        conv: "convertOperationToMCPMethod fuel spec operation method path c = Inr (r, c1)"
        by (auto simp: mcp_operation_def split: sum.splits)
      from convertOperationToMCPMethod_name [OF conv opId [unfolded Some]]
      obtain m where m: "r = Some m" "name m = i" by auto
      note cnt = convertOperationToMCPMethod_counter [OF conv]
      from assms True opId Some accepted conv m cnt
      have "map name (methods reg') = map name (methods reg) @ [fst (ensureUniqueName i (nameCounter c))]
          \<and> nameCounter c' = snd (ensureUniqueName i (nameCounter c))"
        by (auto simp: mcp_operation_def Let_def split: sum.splits prod.splits)
      with ids show ?thesis by simp
    qed
  qed
qed

lemma mcp_operations_names:
  assumes "mcp_operations fuel spec f path entries reg c = Inr (reg', c')"
  shows "map name (methods reg')
           = map name (methods reg) @ names_from (nameCounter c) (concat (map (operation_ids f path) entries))
         \<and> nameCounter c' = counter_after (nameCounter c) (concat (map (operation_ids f path) entries))"
  using assms
proof (induction entries arbitrary: reg c)
  case Nil
  then show ?case by simp
next
  case (Cons e es)
  obtain meth oper where e: "e = (meth, oper)" by (cases e)
  from Cons.prems obtain reg1 c1 where
    step: "mcp_operation fuel spec f path meth oper reg c = Inr (reg1, c1)"
    and rest: "mcp_operations fuel spec f path es reg1 c1 = Inr (reg', c')"
    by (auto simp: e split: sum.splits)
  from mcp_operation_names [OF step] Cons.IH [OF rest] show ?case
    by (simp add: e names_from_append counter_after_append)
qed

lemma mcp_paths_names:
  assumes "mcp_paths fuel spec f entries reg c = Inr (reg', c')"
  shows "map name (methods reg')
           = map name (methods reg) @ names_from (nameCounter c) (concat (map (path_ids f) entries))
         \<and> nameCounter c' = counter_after (nameCounter c) (concat (map (path_ids f) entries))"
  using assms
proof (induction entries arbitrary: reg c)
  case Nil
  then show ?case by simp
next
  case (Cons e es)
  obtain path pathItem where e: "e = (path, pathItem)" by (cases e)
  show ?case
  proof (cases "truthy pathItem")
    case False
    with Cons.prems have "mcp_paths fuel spec f es reg c = Inr (reg', c')" by (simp add: e)
    from Cons.IH [OF this] False show ?thesis by (simp add: e path_ids_def)
  next
    case True
    with Cons.prems obtain reg1 c1 where
      step: "mcp_operations fuel spec f path (js_entries pathItem) reg c = Inr (reg1, c1)"
      and rest: "mcp_paths fuel spec f es reg1 c1 = Inr (reg', c')"
      by (auto simp: e split: sum.splits)
    from mcp_operations_names [OF step] Cons.IH [OF rest] True show ?thesis
      by (simp add: e path_ids_def names_from_append counter_after_append)
  qed
qed

text \<open>
  The names in the registry of a run are the names \<open>ensureUniqueName\<close> gives to the
  emitted identifiers in turn, from the counter the instance starts with.
\<close>

lemma convertToMCPTools_names:
  assumes "convertToMCPTools fuel spec f c = Inr (reg, c')"
  shows "map name (methods reg) = names_from (nameCounter c) (emitted_ids f spec)"
    and "nameCounter c' = counter_after (nameCounter c) (emitted_ids f spec)"
  using assms mcp_paths_names [of fuel spec f "spec_paths spec"
      "\<lparr>methods = [], openApiLookup = [], zip_lookup = []\<rparr>" c reg c']
  by (auto simp: convertToMCPTools_def emitted_ids_def spec_paths_def split: if_splits)


lemmas js_defs = own_entries_def is_index_entry_def entry_index_def index_value_def
  digit_value_def truthy_field_def starts_with_def object_prototype_names_def or_empty_def
  or_empty_string_def opt_entry_def

lemmas run_defs = convertToMCPTools_def spec_paths_def mcp_operation_def isOperation_def
  to_lower_def lower_char_def operationId_def convertOperationToMCPMethod_def
  operation_parameters_def mcp_request_body_def body_content_def build_description_def
  summary_or_description_def extractResponseType_def success_response_def attach_defs_def
  buildSelectiveDefs_def input_object_def subschemas_def array_field_def defs_name_def
  getDescription_def new_converter_def apiName_def console_log_def

lemma two_long_ids:
  "emitted_ids (\<lambda>i p. True) two_long_spec
     = [''listItems''] @ [replicate 80 (CHR ''a'')] @ [''getItem''] @ [replicate 70 (CHR ''b'')] @ []"
  by (simp add: emitted_ids_def path_ids_def operation_ids_def http_methods_def two_long_spec_def
      js_defs to_lower_def lower_char_def)

lemma two_long_run:
  "\<exists>reg c'. convertToMCPTools 0 two_long_spec (\<lambda>i p. True) new_converter = Inr (reg, c')"
  by (simp add: two_long_spec_def run_defs js_defs Let_def split_def ensureUniqueName_def)


section \<open>A cycle between two components\<close>

lemma starts_with_append [simp]: "starts_with p (p @ s)"
  by (simp add: starts_with_def)

lemma to_defs_ref_components [simp]: "to_defs_ref (componentsPrefix @ n) = defsPrefix @ n"
  by (simp add: to_defs_ref_def)

lemma own_entries_single [simp]: "own_entries [x] = [x]"
  by (simp add: own_entries_def)







section \<open>Parameters that are left out\<close>

lemma add_parameters_append:
  "add_parameters fuel spec (ps1 @ ps2) acc c =
     (case add_parameters fuel spec ps1 acc c of
        Inl e \<Rightarrow> Inl e
      | Inr (acc1, c1) \<Rightarrow> add_parameters fuel spec ps2 acc1 c1)"
  by (induction ps1 arbitrary: acc c) (auto split: sum.splits)

lemma omitted_add_parameter:
  assumes "omitted_parameter spec param"
  shows "add_parameter fuel spec param acc c = Inr (acc, c)"
proof (cases param)
  case (JObj kvs)
  show ?thesis
  proof (cases "map_of kvs ''$ref''")
    case None
    with JObj assms show ?thesis
      by (simp add: omitted_parameter_def add_parameter_def resolveParameter_def)
  next
    case (Some r)
    with JObj assms obtain ref where r: "r = JStr ref"
      by (cases r) (auto simp: omitted_parameter_def)
    with Some JObj assms show ?thesis
      by (auto simp: omitted_parameter_def add_parameter_def resolveParameter_def
          resolve_pointer_of_def split: option.splits sum.splits)
  qed
next
  case (JArr xs)
  then show ?thesis
    by (simp add: add_parameter_def resolveParameter_def truthy_field_def index_value_def
        digit_value_def)
qed (use assms in \<open>simp_all add: omitted_parameter_def\<close>)

lemma omitted_operation_parameters:
  assumes "omitted_parameter spec param"
    and "map_of kvs ''parameters'' = Some (JArr (ps1 @ param # ps2))"
    and "map_of kvs' = (map_of kvs)(''parameters'' \<mapsto> JArr (ps1 @ ps2))"
  shows "operation_parameters fuel spec (JObj kvs) acc c
           = operation_parameters fuel spec (JObj kvs') acc c"
proof -
  have "add_parameters fuel spec (param # ps2) acc1 c1 = add_parameters fuel spec ps2 acc1 c1"
    for acc1 c1
    using omitted_add_parameter [OF assms(1), of fuel acc1 c1] by simp
  then have "add_parameters fuel spec (ps1 @ param # ps2) acc c
           = add_parameters fuel spec (ps1 @ ps2) acc c"
    by (simp add: add_parameters_append split: sum.splits)
  with assms(2,3) show ?thesis
    by (simp add: operation_parameters_def truthy_field_def)
qed

lemma other_truthy:
  assumes "map_of kvs' = (map_of kvs)(''parameters'' \<mapsto> v)"
  shows "truthy_field (JObj kvs') ''summary'' = truthy_field (JObj kvs) ''summary''"
    and "truthy_field (JObj kvs') ''description'' = truthy_field (JObj kvs) ''description''"
    and "truthy_field (JObj kvs') ''responses'' = truthy_field (JObj kvs) ''responses''"
  using assms by (simp_all add: truthy_field_def)

lemma other_summary:
  assumes "map_of kvs' = (map_of kvs)(''parameters'' \<mapsto> v)"
  shows "summary_or_description (JObj kvs') = summary_or_description (JObj kvs)"
  unfolding summary_or_description_def other_truthy [OF assms] ..

lemma other_fields:
  assumes "map_of kvs' = (map_of kvs)(''parameters'' \<mapsto> v)"
  shows "operationId (JObj kvs') = operationId (JObj kvs)"
    and "mcp_request_body fuel spec (JObj kvs') acc c = mcp_request_body fuel spec (JObj kvs) acc c"
    and "json_request_body fuel spec (JObj kvs') acc c = json_request_body fuel spec (JObj kvs) acc c"
    and "build_description spec (JObj kvs') = build_description spec (JObj kvs)"
    and "js_get (JObj kvs') ''responses'' = js_get (JObj kvs) ''responses''"
proof -
  show "build_description spec (JObj kvs') = build_description spec (JObj kvs)"
    unfolding build_description_def other_summary [OF assms] other_truthy [OF assms] ..
qed (use assms in \<open>simp_all add: operationId_def mcp_request_body_def json_request_body_def
      body_content_def truthy_field_def\<close>)

text \<open>
  C10. Let \<open>param\<close> be a parameter without a schema, or a reference that does not resolve
  or resolves to a value without a name or without a schema. The loop body for
  \<open>param\<close> returns the input schema under construction and the instance as they were: no
  property, no required name, no diagnostic. An operation that declares \<open>param\<close> among
  its parameters is converted, by \<open>convertOperationToMCPMethod\<close> and by
  \<open>convertOperationToJsonSchema\<close>, to what the same operation without \<open>param\<close> is
  converted to.
\<close>

theorem omitted_parameter_skipped:
  assumes "omitted_parameter spec param"
    and "map_of kvs ''parameters'' = Some (JArr (ps1 @ param # ps2))"
    and "map_of kvs' = (map_of kvs)(''parameters'' \<mapsto> JArr (ps1 @ ps2))"
  shows "add_parameter fuel spec param acc c = Inr (acc, c)
       \<and> convertOperationToMCPMethod fuel spec (JObj kvs) method path c
           = convertOperationToMCPMethod fuel spec (JObj kvs') method path c
       \<and> convertOperationToJsonSchema fuel spec (JObj kvs) c
           = convertOperationToJsonSchema fuel spec (JObj kvs') c"
proof -
  note same = omitted_operation_parameters [OF assms, symmetric] other_fields [OF assms(3)]
  have "convertOperationToMCPMethod fuel spec (JObj kvs') method path c
      = convertOperationToMCPMethod fuel spec (JObj kvs) method path c"
    unfolding convertOperationToMCPMethod_def same ..
  moreover have "convertOperationToJsonSchema fuel spec (JObj kvs') c
      = convertOperationToJsonSchema fuel spec (JObj kvs) c"
    unfolding convertOperationToJsonSchema_def same by simp
  ultimately show ?thesis
    using omitted_add_parameter [OF assms(1), of fuel acc c] by simp
qed

theorem omitted_parameter_skipped_witness:
  "add_parameter 0 JNull unnamed_limit ([], []) new_converter = Inr (([], []), new_converter)
   \<and> convertOperationToMCPMethod 0 JNull
        (JObj [(''operationId'', JStr ''list''),
               (''parameters'', JArr ([page_parameter] @ unnamed_limit # []))])
        ''get'' ''/items'' new_converter
     = convertOperationToMCPMethod 0 JNull
        (JObj [(''operationId'', JStr ''list''), (''parameters'', JArr ([page_parameter] @ []))])
        ''get'' ''/items'' new_converter
   \<and> convertOperationToJsonSchema 0 JNull
        (JObj [(''operationId'', JStr ''list''),
               (''parameters'', JArr ([page_parameter] @ unnamed_limit # []))])
        new_converter
     = convertOperationToJsonSchema 0 JNull
        (JObj [(''operationId'', JStr ''list''), (''parameters'', JArr ([page_parameter] @ []))])
        new_converter"
proof -
  have "omitted_parameter JNull unnamed_limit"
    by (simp add: omitted_parameter_def unnamed_limit_def truthy_field_def)
  then show ?thesis
    by (rule omitted_parameter_skipped
          [of JNull unnamed_limit
              "[(''operationId'', JStr ''list''),
                (''parameters'', JArr ([page_parameter] @ unnamed_limit # []))]"
              "[page_parameter]" "[]"
              "[(''operationId'', JStr ''list''), (''parameters'', JArr ([page_parameter] @ []))]"])
      (auto simp: fun_eq_iff)
qed

section \<open>Two runs on new instances\<close>



text \<open>
  The state of the instance matters: a second run on the instance that a first run
  leaves behind continues the numbering of the names.
\<close>

lemma reused_instance_names:
  assumes "convertToMCPTools fuel spec f new_converter = Inr (reg1, c1)"
    and "convertToMCPTools fuel spec f c1 = Inr (reg2, c2)"
  shows "map name (methods reg2)
           = names_from (counter_after 0 (emitted_ids f spec)) (emitted_ids f spec)"
  using convertToMCPTools_names [OF assms(1)] convertToMCPTools_names [OF assms(2)]
  by (simp add: new_converter_def)

section \<open>References outside the component table\<close>



end
